theory Spec2Isabelle
  imports Main "HOL-Library.Char_ord" "HOL-Library.List_Lexorder" "HOL-Library.Multiset"
begin

section \<open>Data model (api.ts)\<close>

text \<open>
  The records follow the interfaces \<open>Pattern\<close> and \<open>Shape\<close>. Field names carry a prefix
  where two interfaces share a name (\<open>id\<close>, \<open>name\<close>, \<open>stop_sequence\<close>, \<open>stop_id\<close>).

  JavaScript strings are lists of code units, compared lexicographically by \<open>\<le>\<close>
  (\<open>Char_ord\<close> with \<open>List_Lexorder\<close>), as the operator \<open><=\<close> on strings does; a \<open>char\<close>
  holds the code units up to \<open>255\<close>, which covers dates, times and Latin-1 names. JavaScript
  numbers that the code only prints (coordinates, stop sequence numbers) are of the type
  parameter \<open>'n\<close>; the conversion of a number to a string inside a template literal is a
  parameter of the serializer. The direction code, which the code compares with \<open>0\<close> and
  with \<open>state.direction\<close>, is an \<open>int\<close>.

  The interfaces declare every field as present. The model follows them, except where the
  source itself tests a field for being there before it uses it: \<open>pattern.short_name ||\<close>,
  \<open>pattern.path\<close>, \<open>p.trips ?\<close>, \<open>p.stop &&\<close>, \<open>p.stop.lat && p.stop.lon\<close>. Such a field is an
  \<open>option\<close>, \<open>None\<close> standing for \<open>undefined\<close>. Reading a property of \<open>undefined\<close> raises a
  \<open>TypeError\<close>.
\<close>

datatype error = TypeError

record stop =
  stop_id :: string
  stop_name :: string
  stop_lat :: "string option"
  stop_lon :: "string option"

record 'n path_entry =
  stop :: "stop option"
  stop_sequence :: 'n

record 'n schedule_entry =
  arrival_time :: string
  sched_stop_id :: string
  sched_stop_sequence :: 'n

record 'n trip =
  trip_id :: string
  dates :: "string list"
  schedule :: "'n schedule_entry list"

record 'n pattern =
  pattern_id :: string
  line_id :: string
  route_id :: string
  short_name :: "string option"
  direction :: int
  path :: "'n path_entry list option"
  shape_id :: string
  trips :: "'n trip list option"

text \<open>\<open>shape.geojson.geometry.coordinates\<close>: pairs \<open>[lon, lat]\<close>.\<close>

record 'n shape =
  coordinates :: "('n \<times> 'n) list"

text \<open>\<open>interface TripData\<close> of main.ts.\<close>

record 'n TripData =
  trip :: "'n trip"
  pattern :: "'n pattern"
  startTime :: string

text \<open>Truthiness of a string that may be \<open>undefined\<close>: the empty string is falsy too.\<close>

fun truthy :: "string option \<Rightarrow> bool" where
  "truthy None = False"
| "truthy (Some s) = (s \<noteq> [])"

text \<open>A string that may be \<open>undefined\<close>, inside a template literal.\<close>

fun template :: "string option \<Rightarrow> string" where
  "template None = ''undefined''"
| "template (Some s) = s"

section \<open>Service Calendar Resolver (main.ts)\<close>

text \<open>
  \<open>findClosestDate\<close>, lines 163-171. The two index reads are in range where they are
  reached.
\<close>

definition findClosestDate :: "string \<Rightarrow> string list \<Rightarrow> string" where
  "findClosestDate targetDate availableDates =
     (if length availableDates = 0 then targetDate
      else let pastOrEqualDates = filter (\<lambda>d. d \<le> targetDate) availableDates in
        if length pastOrEqualDates > 0
        then pastOrEqualDates ! (length pastOrEqualDates - 1)
        else availableDates ! 0)"

text \<open>
  \<open>availableDates\<close> is a \<open>Set\<close> of strings: a list without duplicates in insertion order,
  which is the order \<open>Array.from\<close> reads it in.
\<close>

definition Set_add :: "'a \<Rightarrow> 'a list \<Rightarrow> 'a list" where
  "Set_add d s = (if d \<in> set s then s else s @ [d])"

text \<open>
  \<open>getTripsForDate\<close>, lines 376-398. The closure reads \<open>state.patterns\<close> and
  \<open>state.direction\<close> and updates \<open>availableDates\<close>; here they are arguments, and the
  updated set is returned with the trips. \<open>tripStep\<close> is the body of the inner
  \<open>forEach\<close>, \<open>patternStep\<close> the body of the outer one. \<open>pattern.trips.forEach\<close> on a
  pattern without \<open>trips\<close> raises.
\<close>

definition tripStep ::
  "int \<Rightarrow> string \<Rightarrow> 'n pattern \<Rightarrow> 'n trip \<Rightarrow> 'n TripData list \<times> string list
     \<Rightarrow> 'n TripData list \<times> string list" where
  "tripStep dir targetDate p t acc =
     (let trips1 =
        (if targetDate \<in> set (dates t)
         then (case schedule t of
                 [] \<Rightarrow> fst acc
               | firstStop # _ \<Rightarrow>
                   fst acc @ [\<lparr>trip = t, pattern = p, startTime = arrival_time firstStop\<rparr>])
         else fst acc);
          availableDates1 =
        (if direction p = dir then fold Set_add (dates t) (snd acc) else snd acc)
      in (trips1, availableDates1))"

definition patternStep ::
  "int \<Rightarrow> string \<Rightarrow> 'n pattern \<Rightarrow> 'n TripData list \<times> string list
     \<Rightarrow> error + 'n TripData list \<times> string list" where
  "patternStep dir targetDate p acc =
     (if direction p \<noteq> dir then Inr acc
      else case trips p of
             None \<Rightarrow> Inl TypeError
           | Some ts \<Rightarrow> Inr (fold (tripStep dir targetDate p) ts acc))"

fun forEachPattern ::
  "int \<Rightarrow> string \<Rightarrow> 'n pattern list \<Rightarrow> 'n TripData list \<times> string list
     \<Rightarrow> error + 'n TripData list \<times> string list" where
  "forEachPattern dir targetDate [] acc = Inr acc"
| "forEachPattern dir targetDate (p # ps) acc =
     (case patternStep dir targetDate p acc of
        Inl e \<Rightarrow> Inl e
      | Inr acc' \<Rightarrow> forEachPattern dir targetDate ps acc')"

definition getTripsForDate ::
  "'n pattern list \<Rightarrow> int \<Rightarrow> string \<Rightarrow> string list
     \<Rightarrow> error + 'n TripData list \<times> string list" where
  "getTripsForDate patterns dir targetDate availableDates =
     forEachPattern dir targetDate patterns ([], availableDates)"

text \<open>
  The resolver itself, lines 375-412 of \<open>renderSchedules\<close>: what it leaves in \<open>allTrips\<close>,
  \<open>isFallback\<close> and \<open>fallbackDateDisplay\<close>. \<open>dateStr\<close> is the requested date as line 373 leaves
  it, without hyphens. \<open>Array.from(availableDates).sort()\<close> sorts strings by code units.
  \<open>substring\<close> is \<open>String.prototype.substring\<close> for indices in ascending order.
\<close>

record 'n resolved =
  allTrips :: "'n TripData list"
  isFallback :: bool
  fallbackDateDisplay :: string

definition substring :: "string \<Rightarrow> nat \<Rightarrow> nat \<Rightarrow> string" where
  "substring s i j = take (j - i) (drop i s)"

definition dateDisplay :: "string \<Rightarrow> string" where
  "dateDisplay d = substring d 0 4 @ ''-'' @ substring d 4 6 @ ''-'' @ substring d 6 8"

definition resolveTrips :: "'n pattern list \<Rightarrow> int \<Rightarrow> string \<Rightarrow> error + 'n resolved" where
  "resolveTrips patterns dir dateStr =
     (case getTripsForDate patterns dir dateStr [] of
        Inl e \<Rightarrow> Inl e
      | Inr (allTrips0, availableDates) \<Rightarrow>
          if length allTrips0 = 0 \<and> length availableDates > 0
          then let sortedDates = sort availableDates;
                   fallbackDateStr = findClosestDate dateStr sortedDates
               in if fallbackDateStr \<noteq> dateStr
                  then (case getTripsForDate patterns dir fallbackDateStr availableDates of
                          Inl e \<Rightarrow> Inl e
                        | Inr (allTrips1, _) \<Rightarrow>
                            Inr \<lparr>allTrips = allTrips1, isFallback = True,
                                 fallbackDateDisplay = dateDisplay fallbackDateStr\<rparr>)
                  else Inr \<lparr>allTrips = allTrips0, isFallback = False,
                            fallbackDateDisplay = []\<rparr>
          else Inr \<lparr>allTrips = allTrips0, isFallback = False, fallbackDateDisplay = []\<rparr>)"

section \<open>Trip Ordering (main.ts)\<close>

text \<open>
  Line 439: \<open>allTrips.sort((a, b) => a.startTime.localeCompare(b.startTime))\<close>.
  \<open>Array.prototype.sort\<close> is stable (ECMAScript 2019); with a consistent comparator every
  stable sort gives the same array, so a stable insertion sort stands for it. An element
  goes before the first element that the comparator does not put before it.
  \<open>String.prototype.localeCompare\<close> belongs to the host's collation, not to this
  repository: it is the parameter \<open>localeCompare\<close>.
\<close>

fun Array_insert :: "('a \<Rightarrow> 'a \<Rightarrow> int) \<Rightarrow> 'a \<Rightarrow> 'a list \<Rightarrow> 'a list" where
  "Array_insert compareFn x [] = [x]"
| "Array_insert compareFn x (y # ys) =
     (if compareFn x y \<le> 0 then x # y # ys else y # Array_insert compareFn x ys)"

definition Array_sort :: "('a \<Rightarrow> 'a \<Rightarrow> int) \<Rightarrow> 'a list \<Rightarrow> 'a list" where
  "Array_sort compareFn xs = foldr (Array_insert compareFn) xs []"

definition sortTrips :: "(string \<Rightarrow> string \<Rightarrow> int) \<Rightarrow> 'n TripData list \<Rightarrow> 'n TripData list" where
  "sortTrips localeCompare allTrips0 =
     Array_sort (\<lambda>a b. localeCompare (startTime a) (startTime b)) allTrips0"

text \<open>A comparator by code units: negative, zero or positive as \<open>localeCompare\<close> is.\<close>

definition codeUnitCompare :: "string \<Rightarrow> string \<Rightarrow> int" where
  "codeUnitCompare a b = (if a < b then - 1 else if a = b then 0 else 1)"

section \<open>Direction Classifier (main.ts)\<close>

text \<open>
  \<open>counts\<close> is the object \<open>{}\<close> of line 257, used as a dictionary from names to numbers.
  Its own properties are a list in creation order: writing an existing property keeps its
  place, a new property goes to the end.

  The object inherits the properties of \<open>Object.prototype\<close>, and line 264 reads and writes
  through them. Reading a name that is no own property but an inherited one gives a
  function, or for \<open>__proto__\<close> the prototype object: a truthy value, and adding the weight
  to it gives a string, the text of the function or \<open>[object Object]\<close> followed by the
  digits of the weight. Adding a weight to such a string appends digits again. None of
  these strings is a numeral, so \<open>Str\<close> stands for all of them. Writing to a name whose
  inherited property is a data property makes an own property; writing a string to
  \<open>__proto__\<close> goes to the setter of that accessor, which ignores a value that is no
  object. \<open>inheritedKeys\<close> are the property names of \<open>Object.prototype\<close> in a browser.
\<close>

datatype jsvalue = Num int | Str

definition inheritedKeys :: "string list" where
  "inheritedKeys =
     [''constructor'', ''hasOwnProperty'', ''isPrototypeOf'', ''propertyIsEnumerable'',
      ''toLocaleString'', ''toString'', ''valueOf'', ''__defineGetter__'',
      ''__defineSetter__'', ''__lookupGetter__'', ''__lookupSetter__'', ''__proto__'']"

fun Object_set :: "string \<Rightarrow> 'v \<Rightarrow> (string \<times> 'v) list \<Rightarrow> (string \<times> 'v) list" where
  "Object_set k v [] = [(k, v)]"
| "Object_set k v (kv # kvs) =
     (if fst kv = k then (k, v) # kvs else kv # Object_set k v kvs)"

text \<open>\<open>counts[k] = v\<close> for a number or a string \<open>v\<close>.\<close>

definition Object_put :: "string \<Rightarrow> jsvalue \<Rightarrow> (string \<times> jsvalue) list \<Rightarrow> (string \<times> jsvalue) list" where
  "Object_put k v counts = (if k = ''__proto__'' then counts else Object_set k v counts)"

text \<open>
  \<open>(counts[k] || 0) + w\<close>: an own number, with \<open>0\<close> for \<open>0\<close> and for \<open>undefined\<close>, plus the
  weight; a string for an own string and for an inherited value.
\<close>

definition plusWeight :: "(string \<times> jsvalue) list \<Rightarrow> string \<Rightarrow> int \<Rightarrow> jsvalue" where
  "plusWeight counts k w =
     (case map_of counts k of
        Some (Num c) \<Rightarrow> Num ((if c \<noteq> 0 then c else 0) + w)
      | Some Str \<Rightarrow> Str
      | None \<Rightarrow> if k \<in> set inheritedKeys then Str else Num (0 + w))"

text \<open>
  \<open>Object.entries\<close> lists the own properties in the order of \<open>OrdinaryOwnPropertyKeys\<close>:
  first the keys that are array indices (the decimal numeral, without a leading zero, of
  an integer below \<open>2\<^sup>3\<^sup>2 - 1\<close>) in ascending numeric order, then the other keys in creation
  order.
\<close>

definition isDigit :: "char \<Rightarrow> bool" where
  "isDigit c = (c \<in> set ''0123456789'')"

definition numericValue :: "string \<Rightarrow> int" where
  "numericValue s = foldl (\<lambda>n c. 10 * n + (of_char c - 48)) 0 s"

definition isArrayIndex :: "string \<Rightarrow> bool" where
  "isArrayIndex s =
     (s \<noteq> [] \<and> list_all isDigit s \<and> (s = ''0'' \<or> hd s \<noteq> CHR ''0'')
      \<and> numericValue s < 4294967295)"

definition keyOrder :: "string list \<Rightarrow> string list" where
  "keyOrder ks =
     sort_key numericValue (filter isArrayIndex ks) @ filter (\<lambda>k. \<not> isArrayIndex k) ks"

definition Object_entries :: "(string \<times> 'v) list \<Rightarrow> (string \<times> 'v) list" where
  "Object_entries kvs =
     sort_key (\<lambda>kv. numericValue (fst kv)) (filter (\<lambda>kv. isArrayIndex (fst kv)) kvs)
     @ filter (\<lambda>kv. \<not> isArrayIndex (fst kv)) kvs"

text \<open>
  \<open>getDestinationName\<close>, lines 253-279; \<open>state.patterns\<close> is an argument.
  \<open>weight\<close> is the constant of line 263, \<open>countVote\<close> the body of the \<open>forEach\<close> of lines
  259-266 (\<open>p.path[p.path.length - 1].stop.name\<close> raises where the entry has no \<open>stop\<close>),
  \<open>selectBest\<close> the loop of lines 271-276 over the pair of \<open>bestName\<close> and \<open>maxCount\<close>:
  \<open>count > maxCount\<close> is false for a count that is a string and no numeral.
\<close>

definition weight :: "'n pattern \<Rightarrow> int" where
  "weight p = (case trips p of Some ts \<Rightarrow> int (length ts) | None \<Rightarrow> 1)"

definition countVote ::
  "'n pattern \<Rightarrow> (string \<times> jsvalue) list \<Rightarrow> error + (string \<times> jsvalue) list" where
  "countVote p counts =
     (case path p of
        None \<Rightarrow> Inr counts
      | Some es \<Rightarrow>
          if length es > 0
          then (case stop (es ! (length es - 1)) of
                  None \<Rightarrow> Inl TypeError
                | Some s \<Rightarrow>
                    let lastStop = stop_name s;
                        w = weight p
                    in Inr (Object_put lastStop (plusWeight counts lastStop w) counts))
          else Inr counts)"

fun forEachVote ::
  "'n pattern list \<Rightarrow> (string \<times> jsvalue) list \<Rightarrow> error + (string \<times> jsvalue) list" where
  "forEachVote [] counts = Inr counts"
| "forEachVote (p # ps) counts =
     (case countVote p counts of
        Inl e \<Rightarrow> Inl e
      | Inr counts' \<Rightarrow> forEachVote ps counts')"

fun selectBest :: "string \<times> int \<Rightarrow> (string \<times> jsvalue) list \<Rightarrow> string \<times> int" where
  "selectBest best [] = best"
| "selectBest best ((name, Num c) # entries) =
     (if c > snd best then selectBest (name, c) entries else selectBest best entries)"
| "selectBest best ((name, Str) # entries) = selectBest best entries"

definition getDestinationName :: "'n pattern list \<Rightarrow> int \<Rightarrow> error + string" where
  "getDestinationName patterns dir =
     (let dirPatterns = filter (\<lambda>p. direction p = dir) patterns in
      if length dirPatterns = 0 then Inr (if dir = 0 then ''Ida'' else ''Volta'')
      else case forEachVote dirPatterns [] of
             Inl e \<Rightarrow> Inl e
           | Inr counts \<Rightarrow>
               Inr (fst (selectBest (if dir = 0 then ''Ida'' else ''Volta'', - 1)
                                    (Object_entries counts))))"

section \<open>Track Serializer (gpx.ts)\<close>

text \<open>
  \<open>createGPX\<close>, lines 16-52. \<open>numStr\<close> is the conversion of a number to a string in a
  template literal. Every \<open>gpx += \<dots>\<close> appends to the document so far; \<open>waypoint\<close> is the
  body of the \<open>forEach\<close> over the path, \<open>trackPoint\<close> the body of the loop over the
  coordinates, which binds \<open>[lon, lat]\<close>.
\<close>

definition waypoint :: "('n \<Rightarrow> string) \<Rightarrow> 'n path_entry \<Rightarrow> string \<Rightarrow> string" where
  \<open>waypoint numStr p gpx =
     (case stop p of
        None \<Rightarrow> gpx
      | Some s \<Rightarrow>
          if truthy (stop_lat s) \<and> truthy (stop_lon s)
          then gpx @ ''  <wpt lat="'' @ template (stop_lat s) @ ''" lon="''
                   @ template (stop_lon s) @ ''">\<newline>''
                   @ ''    <name>'' @ stop_name s @ ''</name>\<newline>''
                   @ ''    <desc>Stop Sequence: '' @ numStr (stop_sequence p) @ ''</desc>\<newline>''
                   @ ''  </wpt>\<newline>''
          else gpx)\<close>

definition trackPoint :: "('n \<Rightarrow> string) \<Rightarrow> 'n \<times> 'n \<Rightarrow> string \<Rightarrow> string" where
  \<open>trackPoint numStr c gpx =
     (case c of (lon, lat) \<Rightarrow>
        gpx @ ''      <trkpt lat="'' @ numStr lat @ ''" lon="'' @ numStr lon
            @ ''"></trkpt>\<newline>'')\<close>

definition createGPX :: "('n \<Rightarrow> string) \<Rightarrow> 'n pattern \<Rightarrow> 'n shape \<Rightarrow> bool \<Rightarrow> string" where
  \<open>createGPX numStr pat shp includeStops =
     (let coords = coordinates shp;
          gpx1 = ''<?xml version="1.0" encoding="UTF-8"?>\<newline>'';
          gpx2 = gpx1 @ ''<gpx version="1.1" creator="CarrisDriverApp" xmlns="http://www.topografix.com/GPX/1/1">\<newline>'';
          gpx3 = gpx2 @ ''  <metadata>\<newline>    <name>''
                   @ (if truthy (short_name pat) then template (short_name pat)
                      else pattern_id pat)
                   @ ''</name>\<newline>  </metadata>\<newline>'';
          gpx4 = (if includeStops
                  then (case path pat of
                          None \<Rightarrow> gpx3
                        | Some es \<Rightarrow> fold (waypoint numStr) es gpx3)
                  else gpx3);
          gpx5 = gpx4 @ ''  <trk>\<newline>'';
          gpx6 = gpx5 @ ''    <name>'' @ template (short_name pat) @ '' (''
                   @ (if direction pat = 0 then ''Ida'' else ''Volta'') @ '')</name>\<newline>'';
          gpx7 = gpx6 @ ''    <trkseg>\<newline>'';
          gpx8 = fold (trackPoint numStr) coords gpx7;
          gpx9 = gpx8 @ ''    </trkseg>\<newline>'';
          gpx10 = gpx9 @ ''  </trk>\<newline>'';
          gpx11 = gpx10 @ ''</gpx>''
      in gpx11)\<close>

section \<open>Vocabulary of the specification\<close>

subsection \<open>Service calendar\<close>

text \<open>
  The trips of the selected direction with their owning patterns, in the order the
  resolver visits them; the candidate set \<open>A\<close> of the specification is \<open>serviceDates\<close>.
\<close>

definition dirTrips :: "'n pattern list \<Rightarrow> int \<Rightarrow> ('n pattern \<times> 'n trip) list" where
  "dirTrips ps dir =
     concat (map (\<lambda>p. case trips p of None \<Rightarrow> [] | Some ts \<Rightarrow> map (Pair p) ts)
                 (filter (\<lambda>p. direction p = dir) ps))"

definition runsOn :: "string \<Rightarrow> 'n trip \<Rightarrow> bool" where
  "runsOn d t = (d \<in> set (dates t))"

definition dirDates :: "'n pattern list \<Rightarrow> int \<Rightarrow> string list" where
  "dirDates ps dir = concat (map (\<lambda>pt. dates (snd pt)) (dirTrips ps dir))"

definition serviceDates :: "'n pattern list \<Rightarrow> int \<Rightarrow> string set" where
  "serviceDates ps dir = set (dirDates ps dir)"

text \<open>A trip paired with its owning pattern and its schedule's first arrival time.\<close>

definition toTripData :: "'n pattern \<times> 'n trip \<Rightarrow> 'n TripData" where
  "toTripData pt = \<lparr>trip = snd pt, pattern = fst pt,
                     startTime = arrival_time (schedule (snd pt) ! 0)\<rparr>"

text \<open>The trips that run on a date and have a schedule entry to take a start time from.\<close>

definition tripsOn :: "'n pattern list \<Rightarrow> int \<Rightarrow> string \<Rightarrow> 'n TripData list" where
  "tripsOn ps dir d =
     map toTripData
       (filter (\<lambda>pt. runsOn d (snd pt) \<and> schedule (snd pt) \<noteq> []) (dirTrips ps dir))"

text \<open>Every pattern of the direction carries its \<open>trips\<close>, as the interface declares.\<close>

definition tripsPresent :: "'n pattern list \<Rightarrow> int \<Rightarrow> bool" where
  "tripsPresent ps dir = list_all (\<lambda>p. direction p = dir \<longrightarrow> trips p \<noteq> None) ps"

text \<open>
  The fallback date of the specification: the greatest candidate not after the request,
  or else the least candidate.
\<close>

definition fallbackDate :: "string set \<Rightarrow> string \<Rightarrow> string" where
  "fallbackDate A t = (if \<exists>d\<in>A. d \<le> t then Max {d \<in> A. d \<le> t} else Min A)"

subsection \<open>Destination votes\<close>

text \<open>
  The vote of a pattern: the name of the stop of its last path entry with the pattern's
  weight, if it has a path entry. The votes of a direction are those of its patterns in
  the order of the patterns; the tally of a name is the sum of the weights voted for it.
\<close>

definition patternVote :: "'n pattern \<Rightarrow> (string \<times> int) list" where
  "patternVote p =
     (case path p of
        None \<Rightarrow> []
      | Some es \<Rightarrow>
          if es = [] then []
          else (case stop (last es) of None \<Rightarrow> [] | Some s \<Rightarrow> [(stop_name s, weight p)]))"

definition votes :: "'n pattern list \<Rightarrow> int \<Rightarrow> (string \<times> int) list" where
  "votes ps dir = concat (map patternVote (filter (\<lambda>p. direction p = dir) ps))"

definition tally :: "(string \<times> int) list \<Rightarrow> string \<Rightarrow> int" where
  "tally vs n = sum_list (map snd (filter (\<lambda>v. fst v = n) vs))"

text \<open>The distinct elements of a list in the order of their first occurrence.\<close>

fun firstSeen :: "'a list \<Rightarrow> 'a list" where
  "firstSeen [] = []"
| "firstSeen (x # xs) = x # filter (\<lambda>y. y \<noteq> x) (firstSeen xs)"

text \<open>Every last path entry of a pattern of the direction has its \<open>stop\<close>.\<close>

definition stopsPresent :: "'n pattern list \<Rightarrow> int \<Rightarrow> bool" where
  "stopsPresent ps dir =
     list_all (\<lambda>p. direction p = dir \<longrightarrow>
                 (case path p of
                    None \<Rightarrow> True
                  | Some es \<Rightarrow> es = [] \<or> stop (last es) \<noteq> None)) ps"

text \<open>One step of the tally: what \<open>countVote\<close> does with a vote.\<close>

definition castVote :: "string \<times> int \<Rightarrow> (string \<times> jsvalue) list \<Rightarrow> (string \<times> jsvalue) list" where
  "castVote v counts = Object_put (fst v) (plusWeight counts (fst v) (snd v)) counts"

subsection \<open>Elements of the track document\<close>

text \<open>
  The elements of the document: a track point of a coordinate pair \<open>[lon, lat]\<close>, a waypoint
  of a path entry that has a stop with both coordinates, and the waypoints of a pattern.
\<close>

definition trkptElement :: "('n \<Rightarrow> string) \<Rightarrow> 'n \<times> 'n \<Rightarrow> string" where
  \<open>trkptElement numStr c =
     ''      <trkpt lat="'' @ numStr (snd c) @ ''" lon="'' @ numStr (fst c)
     @ ''"></trkpt>\<newline>''\<close>

definition hasCoordinates :: "'n path_entry \<Rightarrow> bool" where
  "hasCoordinates p =
     (case stop p of None \<Rightarrow> False | Some s \<Rightarrow> truthy (stop_lat s) \<and> truthy (stop_lon s))"

definition wptElement :: "('n \<Rightarrow> string) \<Rightarrow> 'n path_entry \<Rightarrow> string" where
  \<open>wptElement numStr p =
     (case stop p of
        None \<Rightarrow> []
      | Some s \<Rightarrow>
          ''  <wpt lat="'' @ template (stop_lat s) @ ''" lon="'' @ template (stop_lon s)
          @ ''">\<newline>    <name>'' @ stop_name s
          @ ''</name>\<newline>    <desc>Stop Sequence: '' @ numStr (stop_sequence p)
          @ ''</desc>\<newline>  </wpt>\<newline>'')\<close>

definition wptElements :: "('n \<Rightarrow> string) \<Rightarrow> 'n pattern \<Rightarrow> bool \<Rightarrow> string list" where
  "wptElements numStr pat includeStops =
     (if includeStops
      then (case path pat of
              None \<Rightarrow> []
            | Some es \<Rightarrow> map (wptElement numStr) (filter hasCoordinates es))
      else [])"

text \<open>The number of places of a text at which a word starts.\<close>

fun countOccurrences :: "string \<Rightarrow> string \<Rightarrow> nat" where
  "countOccurrences w [] = 0"
| "countOccurrences w (c # cs) =
     (if take (length w) (c # cs) = w then 1 else 0) + countOccurrences w cs"

section \<open>Sample data\<close>

text \<open>
  Small patterns and trips on which the theorems below are instantiated. The first
  argument is the number used for every stop sequence.
\<close>

definition sampleTrip :: "'n \<Rightarrow> string \<Rightarrow> string list \<Rightarrow> string list \<Rightarrow> 'n trip" where
  "sampleTrip n i ds ts =
     \<lparr>trip_id = i, dates = ds,
      schedule = map (\<lambda>a. \<lparr>arrival_time = a, sched_stop_id = ''S'',
                              sched_stop_sequence = n\<rparr>) ts\<rparr>"

definition samplePattern ::
  "'n \<Rightarrow> string \<Rightarrow> int \<Rightarrow> string list \<Rightarrow> 'n trip list option \<Rightarrow> 'n pattern" where
  "samplePattern n i dir stops ts =
     \<lparr>pattern_id = i, line_id = ''L'', route_id = ''R'', short_name = Some i,
      direction = dir,
      path = Some (map (\<lambda>s. \<lparr>stop = Some \<lparr>stop_id = s, stop_name = s,
                                                 stop_lat = Some ''38.7'',
                                                 stop_lon = Some ''-9.1''\<rparr>,
                                  stop_sequence = n\<rparr>) stops),
      shape_id = ''SH'', trips = ts\<rparr>"

definition calendarPatterns :: "int pattern list" where
  "calendarPatterns =
     [samplePattern 1 ''P1'' 0 [''X'']
        (Some [sampleTrip 1 ''T1'' [''20240101'', ''20240110''] [''08:00:00'', ''08:10:00''],
               sampleTrip 1 ''T2'' [''20240105''] [''09:00:00'']]),
      samplePattern 1 ''P2'' 1 [''Y'']
        (Some [sampleTrip 1 ''T3'' [''20240103''] [''10:00:00'']])]"

definition emptySchedulePatterns :: "int pattern list" where
  "emptySchedulePatterns =
     [samplePattern 1 ''P1'' 0 [''X'']
        (Some [sampleTrip 1 ''T1'' [''20240101''] [''08:00:00''],
               sampleTrip 1 ''T2'' [''20240101''] [],
               sampleTrip 1 ''T3'' [''20240102''] [],
               sampleTrip 1 ''T4'' [''20240105''] [''09:00:00'']])]"

definition anomalousPatterns :: "int pattern list" where
  "anomalousPatterns =
     [samplePattern 1 ''P1'' 0 [] (Some [sampleTrip 1 ''T1'' [] []]),
      samplePattern 1 ''P2'' 0 [''X''] (Some []),
      samplePattern 1 ''P3'' 1 [''Y''] None]"

text \<open>Four resolved trips, two of them with the same start time.\<close>

definition tiedTrips :: "int TripData list" where
  "tiedTrips =
     [\<lparr>trip = sampleTrip 1 ''T1'' [''20240101''] [''08:00:00''],
       pattern = samplePattern 1 ''P1'' 0 [''X''] None, startTime = ''08:00:00''\<rparr>,
      \<lparr>trip = sampleTrip 1 ''T2'' [''20240101''] [''25:10:00''],
       pattern = samplePattern 1 ''P1'' 0 [''X''] None, startTime = ''25:10:00''\<rparr>,
      \<lparr>trip = sampleTrip 1 ''T3'' [''20240101''] [''07:30:00''],
       pattern = samplePattern 1 ''P2'' 0 [''Y''] None, startTime = ''07:30:00''\<rparr>,
      \<lparr>trip = sampleTrip 1 ''T4'' [''20240101''] [''08:00:00''],
       pattern = samplePattern 1 ''P2'' 0 [''Y''] None, startTime = ''08:00:00''\<rparr>]"

text \<open>
  Patterns for the label: \<open>A\<close> with two trips ending at \<open>X\<close>, \<open>E\<close> with an empty path and
  \<open>B\<close> with five trips ending at \<open>Y\<close>; two patterns whose last stops are named by
  numerals; patterns whose last stops bear names that a plain object inherits; a pattern
  without trips before a pattern with one trip.
\<close>

definition votePatterns :: "int pattern list" where
  "votePatterns =
     [samplePattern 1 ''A'' 0 [''W'', ''X'']
        (Some [sampleTrip 1 ''T1'' [] [], sampleTrip 1 ''T2'' [] []]),
      samplePattern 1 ''E'' 0 [] (Some [sampleTrip 1 ''T3'' [] []]),
      samplePattern 1 ''B'' 0 [''W'', ''Y'']
        (Some [sampleTrip 1 ''T4'' [] [], sampleTrip 1 ''T5'' [] [], sampleTrip 1 ''T6'' [] [],
               sampleTrip 1 ''T7'' [] [], sampleTrip 1 ''T8'' [] []])]"

definition numberedStopPatterns :: "int pattern list" where
  "numberedStopPatterns =
     [samplePattern 1 ''A'' 0 [''10''] (Some [sampleTrip 1 ''T1'' [] []]),
      samplePattern 1 ''B'' 0 [''9''] (Some [sampleTrip 1 ''T2'' [] []])]"

definition inheritedNamePatterns :: "int pattern list" where
  "inheritedNamePatterns =
     [samplePattern 1 ''A'' 0 [''X'']
        (Some [sampleTrip 1 ''T1'' [] [], sampleTrip 1 ''T2'' [] []]),
      samplePattern 1 ''C'' 0 [''constructor'']
        (Some [sampleTrip 1 ''T3'' [] [], sampleTrip 1 ''T4'' [] [], sampleTrip 1 ''T5'' [] [],
               sampleTrip 1 ''T6'' [] [], sampleTrip 1 ''T7'' [] []]),
      samplePattern 1 ''D'' 1 [''__proto__''] (Some [sampleTrip 1 ''T8'' [] []])]"

definition zeroTripPatterns :: "int pattern list" where
  "zeroTripPatterns =
     [samplePattern 1 ''A'' 0 [''X''] (Some []),
      samplePattern 1 ''B'' 0 [''Y''] (Some [sampleTrip 1 ''T1'' [] []])]"

definition metroPattern :: "string pattern" where
  "metroPattern = samplePattern ''1'' ''1001_0_1'' 0 [''Alcochete'', ''Montijo''] None"

definition unnamedPattern :: "string pattern" where
  "unnamedPattern = (samplePattern ''1'' ''1001_0_2'' 1 [''Montijo''] (Some []))\<lparr>short_name := None\<rparr>"

definition namedPattern :: "string pattern" where
  "namedPattern =
     (samplePattern ''1'' ''1001_0_3'' 0 [''Montijo''] None)
       \<lparr>short_name := Some ''Alcochete - Montijo''\<rparr>"

text \<open>The shape of two coordinates, given by the decimal text of its numbers.\<close>

definition sampleShape :: "string shape" where
  "sampleShape = \<lparr>coordinates = [(''-9.1'', ''38.7''), (''-9.2'', ''38.8'')]\<rparr>"

section \<open>The resolver in closed form\<close>

text \<open>
  On patterns that carry their trips, one pass of \<open>getTripsForDate\<close> returns the trips of
  the date in the order of the patterns and adds every service date of the direction to
  \<open>availableDates\<close>; on other patterns it raises.
\<close>

lemma set_fold_Set_add: "set (fold Set_add xs s) = set xs \<union> set s"
  by (induction xs arbitrary: s) (auto simp: Set_add_def)

lemma tripStep_pair:
  "tripStep dir d p t (acc, av) =
     (acc @ map toTripData (filter (\<lambda>pt. runsOn d (snd pt) \<and> schedule (snd pt) \<noteq> []) [(p, t)]),
      if direction p = dir then fold Set_add (dates t) av else av)"
  by (cases "schedule t") (simp_all add: tripStep_def runsOn_def toTripData_def)

lemma fold_tripStep:
  "fold (tripStep dir d p) ts (acc, av) =
     (acc @ map toTripData (filter (\<lambda>pt. runsOn d (snd pt) \<and> schedule (snd pt) \<noteq> []) (map (Pair p) ts)),
      if direction p = dir then fold Set_add (concat (map dates ts)) av else av)"
proof (induction ts arbitrary: acc av)
  case Nil
  show ?case by simp
next
  case (Cons t ts)
  have "fold (tripStep dir d p) (t # ts) (acc, av) =
        fold (tripStep dir d p) ts (tripStep dir d p t (acc, av))"
    by simp
  also have "\<dots> = fold (tripStep dir d p) ts
      (acc @ map toTripData (filter (\<lambda>pt. runsOn d (snd pt) \<and> schedule (snd pt) \<noteq> []) [(p, t)]),
       if direction p = dir then fold Set_add (dates t) av else av)"
    by (simp only: tripStep_pair)
  also have "\<dots> =
     (acc @ map toTripData (filter (\<lambda>pt. runsOn d (snd pt) \<and> schedule (snd pt) \<noteq> []) (map (Pair p) (t # ts))),
      if direction p = dir then fold Set_add (concat (map dates (t # ts))) av else av)"
    by (simp add: Cons.IH)
  finally show ?case .
qed

lemma forEachPattern_closed:
  "tripsPresent ps dir \<Longrightarrow>
   forEachPattern dir d ps (acc, av) =
     Inr (acc @ tripsOn ps dir d, fold Set_add (dirDates ps dir) av)"
proof (induction ps arbitrary: acc av)
  case Nil
  show ?case by (simp add: tripsOn_def dirTrips_def dirDates_def)
next
  case (Cons p ps)
  from Cons.prems have tp: "tripsPresent ps dir"
    and hp: "direction p = dir \<longrightarrow> trips p \<noteq> None"
    by (simp_all add: tripsPresent_def)
  show ?case
  proof (cases "direction p = dir")
    case False
    then show ?thesis
      using Cons.IH [OF tp]
      by (simp add: patternStep_def tripsOn_def dirTrips_def dirDates_def)
  next
    case True
    with hp obtain ts where ts: "trips p = Some ts" by auto
    show ?thesis
      using True ts Cons.IH [OF tp]
      by (simp add: patternStep_def fold_tripStep tripsOn_def dirTrips_def dirDates_def
                    comp_def)
  qed
qed

lemma forEachPattern_error:
  "\<not> tripsPresent ps dir \<Longrightarrow> forEachPattern dir d ps acc = Inl TypeError"
proof (induction ps arbitrary: acc)
  case Nil
  then show ?case by (simp add: tripsPresent_def)
next
  case (Cons p ps)
  show ?case
  proof (cases "direction p = dir \<longrightarrow> trips p \<noteq> None")
    case False
    then show ?thesis by (simp add: patternStep_def)
  next
    case True
    with Cons.prems have "\<not> tripsPresent ps dir" by (auto simp: tripsPresent_def)
    from Cons.IH [OF this] True show ?thesis
      by (auto simp: patternStep_def split: sum.splits option.splits)
  qed
qed

lemma getTripsForDate_closed:
  "tripsPresent ps dir \<Longrightarrow>
   getTripsForDate ps dir d av = Inr (tripsOn ps dir d, fold Set_add (dirDates ps dir) av)"
  by (simp add: getTripsForDate_def forEachPattern_closed)

text \<open>A sorted list ends with its greatest and starts with its least element.\<close>

lemma last_sorted_Max:
  fixes xs :: "'a::linorder list"
  shows "sorted xs \<Longrightarrow> xs \<noteq> [] \<Longrightarrow> last xs = Max (set xs)"
proof (induction xs)
  case Nil
  then show ?case by simp
next
  case (Cons x xs)
  show ?case
  proof (cases "xs = []")
    case True
    then show ?thesis by simp
  next
    case False
    with Cons have "last xs = Max (set xs)" by simp
    moreover from Cons.prems have "\<forall>y\<in>set xs. x \<le> y" by simp
    ultimately show ?thesis using False
      by (simp add: max_def)
  qed
qed

lemma hd_sorted_Min:
  fixes xs :: "'a::linorder list"
  shows "sorted xs \<Longrightarrow> xs \<noteq> [] \<Longrightarrow> xs ! 0 = Min (set xs)"
  by (cases xs) (auto simp: Min_insert2)

text \<open>What \<open>findClosestDate\<close> returns on a sorted, non-empty list.\<close>

lemma findClosestDate_sorted:
  assumes "sorted ds" and "ds \<noteq> []"
  shows "findClosestDate t ds =
           (if \<exists>d\<in>set ds. d \<le> t then Max {d \<in> set ds. d \<le> t} else Min (set ds))"
proof (cases "\<exists>d\<in>set ds. d \<le> t")
  case True
  let ?past = "filter (\<lambda>d. d \<le> t) ds"
  from True have ne: "?past \<noteq> []" by (simp add: filter_empty_conv)
  have srt: "sorted ?past" using assms(1) by (simp add: sorted_wrt_filter)
  have "?past ! (length ?past - 1) = last ?past" using ne by (simp add: last_conv_nth)
  also have "\<dots> = Max (set ?past)" using srt ne by (rule last_sorted_Max)
  also have "set ?past = {d \<in> set ds. d \<le> t}" by auto
  finally show ?thesis using True ne assms(2) by (simp add: findClosestDate_def Let_def)
next
  case False
  then have "filter (\<lambda>d. d \<le> t) ds = []" by (simp add: filter_empty_conv)
  then show ?thesis using False assms hd_sorted_Min [OF assms]
    by (simp add: findClosestDate_def Let_def)
qed

lemma findClosestDate_member:
  assumes "sorted ds" and "t \<in> set ds"
  shows "findClosestDate t ds = t"
proof -
  from assms(2) have ne: "ds \<noteq> []" by auto
  have ex: "\<exists>d\<in>set ds. d \<le> t" using assms(2) by auto
  have "Max {d \<in> set ds. d \<le> t} = t"
    by (rule Max_eqI) (use assms(2) in auto)
  then show ?thesis using findClosestDate_sorted [OF assms(1) ne, of t] ex by simp
qed

lemma findClosestDate_in:
  assumes "sorted ds" and "ds \<noteq> []"
  shows "findClosestDate t ds \<in> set ds"
proof (cases "\<exists>d\<in>set ds. d \<le> t")
  case True
  then have "{d \<in> set ds. d \<le> t} \<noteq> {}" by auto
  then have "Max {d \<in> set ds. d \<le> t} \<in> {d \<in> set ds. d \<le> t}"
    by (intro Max_in) auto
  then show ?thesis using findClosestDate_sorted [OF assms, of t] True by simp
next
  case False
  have "Min (set ds) \<in> set ds" using assms(2) by (intro Min_in) auto
  then show ?thesis using findClosestDate_sorted [OF assms, of t] False by simp
qed

lemma tripsOn_empty: "d \<notin> serviceDates ps dir \<Longrightarrow> tripsOn ps dir d = []"
  by (auto simp: tripsOn_def serviceDates_def dirDates_def runsOn_def filter_empty_conv)

lemma set_availableDates: "set (fold Set_add (dirDates ps dir) []) = serviceDates ps dir"
  by (simp add: set_fold_Set_add serviceDates_def)

text \<open>The resolver on a date out of the candidate set: it falls back.\<close>

lemma resolveTrips_fallback:
  assumes tp: "tripsPresent ps dir"
    and norun: "t \<notin> serviceDates ps dir"
    and ne: "serviceDates ps dir \<noteq> {}"
  shows "resolveTrips ps dir t =
           Inr \<lparr>allTrips = tripsOn ps dir (findClosestDate t (sort (fold Set_add (dirDates ps dir) []))),
                isFallback = True,
                fallbackDateDisplay =
                  dateDisplay (findClosestDate t (sort (fold Set_add (dirDates ps dir) [])))\<rparr>"
proof -
  let ?av = "fold Set_add (dirDates ps dir) []"
  let ?f = "findClosestDate t (sort ?av)"
  have av: "set ?av = serviceDates ps dir" by (rule set_availableDates)
  with ne have avne: "?av \<noteq> []" by auto
  have sne: "sort ?av \<noteq> []" using avne by (metis length_sort length_0_conv)
  have "?f \<in> set (sort ?av)" using sne by (intro findClosestDate_in) auto
  with av norun have neq: "?f \<noteq> t" by auto
  show ?thesis
    using avne neq
    by (simp add: resolveTrips_def getTripsForDate_closed [OF tp] tripsOn_empty [OF norun]
                  Let_def)
qed

text \<open>The resolver on a date of the candidate set: no fallback.\<close>

lemma resolveTrips_service_date:
  assumes tp: "tripsPresent ps dir"
    and run: "d \<in> serviceDates ps dir"
  shows "resolveTrips ps dir d =
           Inr \<lparr>allTrips = tripsOn ps dir d, isFallback = False, fallbackDateDisplay = []\<rparr>"
proof -
  let ?av = "fold Set_add (dirDates ps dir) []"
  have av: "set ?av = serviceDates ps dir" by (rule set_availableDates)
  have "findClosestDate d (sort ?av) = d"
    using run av by (intro findClosestDate_member) auto
  then show ?thesis
    by (simp add: resolveTrips_def getTripsForDate_closed [OF tp] Let_def)
qed

lemma resolveTrips_no_dates:
  assumes tp: "tripsPresent ps dir"
    and emp: "serviceDates ps dir = {}"
  shows "resolveTrips ps dir d =
           Inr \<lparr>allTrips = [], isFallback = False, fallbackDateDisplay = []\<rparr>"
proof -
  have "d \<notin> serviceDates ps dir" using emp by simp
  then have "tripsOn ps dir d = []" by (rule tripsOn_empty)
  moreover have "fold Set_add (dirDates ps dir) [] = []"
    using emp set_availableDates [of ps dir] by simp
  ultimately show ?thesis
    by (simp add: resolveTrips_def getTripsForDate_closed [OF tp])
qed

lemma resolveTrips_error:
  "\<not> tripsPresent ps dir \<Longrightarrow> resolveTrips ps dir d = Inl TypeError"
  by (simp add: resolveTrips_def getTripsForDate_def forEachPattern_error)

section \<open>Service Calendar Resolver: the claims\<close>

text \<open>
  \<^bold>\<open>C2\<close>. On the sorted dates of a non-empty candidate set \<open>A\<close>, \<open>findClosestDate\<close> returns
  the greatest date of \<open>A\<close> that is \<open>\<le>\<close> the request if there is one, else the least date of
  \<open>A\<close>. On a requested date on which no trip of the selected direction runs, the resolver
  falls back to that date: it returns the trips of that date, sets the fallback flag and
  reports the date.
\<close>

theorem C2_fallback_date:
  "(ds \<noteq> [] \<longrightarrow> findClosestDate t (sort ds) = fallbackDate (set ds) t)
   \<and> (tripsPresent ps dir \<and> t \<notin> serviceDates ps dir \<and> serviceDates ps dir \<noteq> {} \<longrightarrow>
        resolveTrips ps dir t =
          Inr \<lparr>allTrips = tripsOn ps dir (fallbackDate (serviceDates ps dir) t),
               isFallback = True,
               fallbackDateDisplay = dateDisplay (fallbackDate (serviceDates ps dir) t)\<rparr>)"
proof (intro conjI impI)
  assume "ds \<noteq> []"
  then have "sort ds \<noteq> []" by (metis set_sort set_empty)
  then show "findClosestDate t (sort ds) = fallbackDate (set ds) t"
    using findClosestDate_sorted [of "sort ds" t] by (simp add: fallbackDate_def)
next
  assume h: "tripsPresent ps dir \<and> t \<notin> serviceDates ps dir \<and> serviceDates ps dir \<noteq> {}"
  let ?av = "fold Set_add (dirDates ps dir) []"
  have av: "set ?av = serviceDates ps dir" by (rule set_availableDates)
  with h have "sort ?av \<noteq> []" by (metis set_sort set_empty)
  then have "findClosestDate t (sort ?av) = fallbackDate (serviceDates ps dir) t"
    using findClosestDate_sorted [of "sort ?av" t] av by (simp add: fallbackDate_def)
  then show "resolveTrips ps dir t =
          Inr \<lparr>allTrips = tripsOn ps dir (fallbackDate (serviceDates ps dir) t),
               isFallback = True,
               fallbackDateDisplay = dateDisplay (fallbackDate (serviceDates ps dir) t)\<rparr>"
    using h resolveTrips_fallback [of ps dir t] by simp
qed

text \<open>
  With \<open>A = {"20240101", "20240105", "20240110"}\<close> the requests \<open>"20240103"\<close> and
  \<open>"20231225"\<close> both fall back to \<open>"20240101"\<close>.
\<close>

theorem C2_fallback_date_witness:
  "findClosestDate ''20240103'' (sort [''20240105'', ''20240101'', ''20240110'']) = ''20240101''
   \<and> findClosestDate ''20231225'' (sort [''20240105'', ''20240101'', ''20240110'']) = ''20240101''
   \<and> serviceDates calendarPatterns 0 = {''20240101'', ''20240105'', ''20240110''}
   \<and> resolveTrips calendarPatterns 0 ''20240103'' =
       Inr \<lparr>allTrips = tripsOn calendarPatterns 0 ''20240101'', isFallback = True,
            fallbackDateDisplay = ''2024-01-01''\<rparr>
   \<and> resolveTrips calendarPatterns 0 ''20231225'' =
       Inr \<lparr>allTrips = tripsOn calendarPatterns 0 ''20240101'', isFallback = True,
            fallbackDateDisplay = ''2024-01-01''\<rparr>"
proof -
  have A: "serviceDates calendarPatterns 0 = {''20240101'', ''20240105'', ''20240110''}"
    by code_simp
  have h1: "tripsPresent calendarPatterns 0 \<and> ''20240103'' \<notin> serviceDates calendarPatterns 0
            \<and> serviceDates calendarPatterns 0 \<noteq> {}" by code_simp
  have h2: "tripsPresent calendarPatterns 0 \<and> ''20231225'' \<notin> serviceDates calendarPatterns 0
            \<and> serviceDates calendarPatterns 0 \<noteq> {}" by code_simp
  have ne: "[''20240105'', ''20240101'', ''20240110''] \<noteq> []" by simp
  have g1: "fallbackDate (set [''20240105'', ''20240101'', ''20240110'']) ''20240103'' = ''20240101''"
    by code_simp
  have g2: "fallbackDate (set [''20240105'', ''20240101'', ''20240110'']) ''20231225'' = ''20240101''"
    by code_simp
  have f1: "fallbackDate (serviceDates calendarPatterns 0) ''20240103'' = ''20240101''"
    by code_simp
  have f2: "fallbackDate (serviceDates calendarPatterns 0) ''20231225'' = ''20240101''"
    by code_simp
  have dd: "dateDisplay ''20240101'' = ''2024-01-01''" by code_simp
  note i1 = C2_fallback_date [where ds = "[''20240105'', ''20240101'', ''20240110'']"
      and t = "''20240103''" and ps = calendarPatterns and dir = 0]
  note i2 = C2_fallback_date [where ds = "[''20240105'', ''20240101'', ''20240110'']"
      and t = "''20231225''" and ps = calendarPatterns and dir = 0]
  have c1: "findClosestDate ''20240103'' (sort [''20240105'', ''20240101'', ''20240110'']) =
             ''20240101''"
    using i1 [THEN conjunct1] ne by (simp only: g1 simp_thms)
  have c2: "findClosestDate ''20231225'' (sort [''20240105'', ''20240101'', ''20240110'']) =
             ''20240101''"
    using i2 [THEN conjunct1] ne by (simp only: g2 simp_thms)
  have r1: "resolveTrips calendarPatterns 0 ''20240103'' =
       Inr \<lparr>allTrips = tripsOn calendarPatterns 0 ''20240101'', isFallback = True,
            fallbackDateDisplay = ''2024-01-01''\<rparr>"
    using i1 [THEN conjunct2] h1 by (simp only: f1 dd simp_thms)
  have r2: "resolveTrips calendarPatterns 0 ''20231225'' =
       Inr \<lparr>allTrips = tripsOn calendarPatterns 0 ''20240101'', isFallback = True,
            fallbackDateDisplay = ''2024-01-01''\<rparr>"
    using i2 [THEN conjunct2] h2 by (simp only: f2 dd simp_thms)
  from c1 c2 A r1 r2 show ?thesis by (intro conjI)
qed

text \<open>
  \<^bold>\<open>C3\<close>, as amended. On a requested date that is in the service dates of some trip of the
  selected direction, the resolver returns exactly the trips that run on that date and have
  a non-empty schedule, in the order of the patterns and their trips, each paired with its
  owning pattern and its schedule's first arrival time; the fallback flag is not set.
  A trip that runs on the date with an empty schedule is left out by the test of
  \<open>firstStop\<close> in line 383.
\<close>

theorem C3_requested_date_in_service:
  assumes "tripsPresent ps dir"
    and "d \<in> serviceDates ps dir"
  shows "resolveTrips ps dir d =
           Inr \<lparr>allTrips =
                  map toTripData
                    (filter (\<lambda>pt. runsOn d (snd pt) \<and> schedule (snd pt) \<noteq> [])
                       (dirTrips ps dir)),
                isFallback = False, fallbackDateDisplay = []\<rparr>"
  using resolveTrips_service_date [OF assms] by (simp add: tripsOn_def)

theorem C3_requested_date_in_service_witness:
  "resolveTrips calendarPatterns 0 ''20240105'' =
     Inr \<lparr>allTrips =
            [\<lparr>trip = sampleTrip 1 ''T2'' [''20240105''] [''09:00:00''],
              pattern = calendarPatterns ! 0, startTime = ''09:00:00''\<rparr>],
          isFallback = False, fallbackDateDisplay = []\<rparr>"
proof -
  have tp: "tripsPresent calendarPatterns 0" by code_simp
  have d: "''20240105'' \<in> serviceDates calendarPatterns 0" by code_simp
  have e: "map toTripData
            (filter (\<lambda>pt. runsOn ''20240105'' (snd pt) \<and> schedule (snd pt) \<noteq> [])
               (dirTrips calendarPatterns 0)) =
          [\<lparr>trip = sampleTrip 1 ''T2'' [''20240105''] [''09:00:00''],
            pattern = calendarPatterns ! 0, startTime = ''09:00:00''\<rparr>]"
    by code_simp
  show ?thesis using C3_requested_date_in_service [OF tp d] by (simp only: e)
qed

text \<open>
  The claim as stated, without the condition on the schedule, fails: \<open>T1\<close> and \<open>T2\<close> both
  run on \<open>"20240101"\<close>, and only \<open>T1\<close>, whose schedule is not empty, is returned.
\<close>

theorem C3_counterexample:
  "''20240101'' \<in> serviceDates emptySchedulePatterns 0
   \<and> resolveTrips emptySchedulePatterns 0 ''20240101'' =
       Inr \<lparr>allTrips =
              [\<lparr>trip = sampleTrip 1 ''T1'' [''20240101''] [''08:00:00''],
                pattern = emptySchedulePatterns ! 0, startTime = ''08:00:00''\<rparr>],
            isFallback = False, fallbackDateDisplay = []\<rparr>
   \<and> map trip_id (filter (runsOn ''20240101'') (map snd (dirTrips emptySchedulePatterns 0))) =
       [''T1'', ''T2'']"
  by code_simp

text \<open>
  \<^bold>\<open>C7\<close>. The claim is that no input makes the resolver raise. The code departs from it:
  \<open>pattern.trips.forEach\<close> of line 380 reads \<open>trips\<close> without a test, and on a pattern of
  the selected direction that has no \<open>trips\<close> the resolver raises a \<open>TypeError\<close>. Line 263 of
  the same function tests \<open>p.trips\<close> for that very case, and \<open>getDestinationName\<close> returns
  a label on the same patterns.
\<close>

theorem C7_missing_trips_raises:
  "trips (anomalousPatterns ! 2) = None
   \<and> direction (anomalousPatterns ! 2) = 1
   \<and> resolveTrips anomalousPatterns 1 ''20240101'' = Inl TypeError
   \<and> getDestinationName anomalousPatterns 1 = Inr ''Y''"
  by code_simp

text \<open>
  \<^bold>\<open>C8\<close>. Where the requested date is a service date of the selected direction and every
  trip of the direction that runs on it has an empty schedule, the resolver returns the
  empty itinerary with the fallback flag unset: the first pass finds no trip, the requested
  date is in \<open>availableDates\<close>, \<open>findClosestDate\<close> returns it unchanged and the test of line
  407 skips the second pass.
\<close>

theorem C8_empty_schedules_suppress_fallback:
  assumes "tripsPresent ps dir"
    and "d \<in> serviceDates ps dir"
    and "\<forall>pt\<in>set (dirTrips ps dir). runsOn d (snd pt) \<longrightarrow> schedule (snd pt) = []"
  shows "resolveTrips ps dir d =
           Inr \<lparr>allTrips = [], isFallback = False, fallbackDateDisplay = []\<rparr>
         \<and> (\<exists>availableDates.
               getTripsForDate ps dir d [] = Inr ([], availableDates)
               \<and> d \<in> set availableDates
               \<and> findClosestDate d (sort availableDates) = d)"
proof -
  let ?av = "fold Set_add (dirDates ps dir) []"
  have emp: "tripsOn ps dir d = []"
    using assms(3) by (auto simp: tripsOn_def filter_empty_conv)
  have av: "set ?av = serviceDates ps dir" by (rule set_availableDates)
  have fc: "findClosestDate d (sort ?av) = d"
    using assms(2) av by (intro findClosestDate_member) auto
  have g: "getTripsForDate ps dir d [] = Inr ([], ?av)"
    by (simp add: getTripsForDate_closed [OF assms(1)] emp)
  show ?thesis
    using resolveTrips_service_date [OF assms(1,2)] g fc av assms(2) by (simp add: emp)
qed

text \<open>
  This holds although another date of the candidate set, here an earlier one, has a trip
  with a schedule.
\<close>

theorem C8_empty_schedules_suppress_fallback_witness:
  "resolveTrips emptySchedulePatterns 0 ''20240102'' =
     Inr \<lparr>allTrips = [], isFallback = False, fallbackDateDisplay = []\<rparr>
   \<and> tripsOn emptySchedulePatterns 0 ''20240101'' \<noteq> []
   \<and> ''20240101'' \<le> ''20240102''"
proof -
  have tp: "tripsPresent emptySchedulePatterns 0" by code_simp
  have d: "''20240102'' \<in> serviceDates emptySchedulePatterns 0" by code_simp
  have es: "\<forall>pt\<in>set (dirTrips emptySchedulePatterns 0).
              runsOn ''20240102'' (snd pt) \<longrightarrow> schedule (snd pt) = []"
    by code_simp
  have other: "tripsOn emptySchedulePatterns 0 ''20240101'' \<noteq> []" by code_simp
  show ?thesis
    using C8_empty_schedules_suppress_fallback [OF tp d es] other by simp
qed

section \<open>Trip Ordering: the claim\<close>

text \<open>
  Where the comparator orders the elements as a key does, the sort is the stable
  \<open>sort_key\<close> of the library.
\<close>

lemma Array_insert_insort_key:
  "\<forall>y\<in>set ys. (compareFn x y \<le> 0) = (f x \<le> f y) \<Longrightarrow>
   Array_insert compareFn x ys = insort_key f x ys"
  by (induction ys) simp_all

lemma Array_sort_sort_key:
  "\<forall>a\<in>set xs. \<forall>b\<in>set xs. (compareFn a b \<le> 0) = (f a \<le> f b) \<Longrightarrow>
   Array_sort compareFn xs = sort_key f xs"
proof (induction xs)
  case Nil
  show ?case by (simp add: Array_sort_def)
next
  case (Cons x xs)
  from Cons.prems have "\<forall>a\<in>set xs. \<forall>b\<in>set xs. (compareFn a b \<le> 0) = (f a \<le> f b)"
    by simp
  then have IH: "Array_sort compareFn xs = sort_key f xs" by (rule Cons.IH)
  from Cons.prems have "\<forall>y\<in>set (sort_key f xs). (compareFn x y \<le> 0) = (f x \<le> f y)"
    by simp
  then have "Array_insert compareFn x (sort_key f xs) = insort_key f x (sort_key f xs)"
    by (rule Array_insert_insort_key)
  then show ?case using IH by (simp add: Array_sort_def)
qed

text \<open>
  \<^bold>\<open>C6\<close>. Trip Ordering returns a permutation of its input, with start times
  non-decreasing in the lexicographic order of the strings, and trips of the same start
  time in their input order. \<open>localeCompare\<close> is taken to order the start times at hand as
  the comparison by code units does, which holds for times in the fixed-width format
  \<open>HH:MM:SS\<close>.
\<close>

theorem C6_trip_ordering:
  assumes "\<forall>a\<in>set ts. \<forall>b\<in>set ts.
             (localeCompare (startTime a) (startTime b) \<le> 0) = (startTime a \<le> startTime b)"
  shows "mset (sortTrips localeCompare ts) = mset ts
         \<and> sorted (map startTime (sortTrips localeCompare ts))
         \<and> (\<forall>k. filter (\<lambda>x. startTime x = k) (sortTrips localeCompare ts) =
                  filter (\<lambda>x. startTime x = k) ts)"
proof -
  have "sortTrips localeCompare ts = sort_key startTime ts"
    unfolding sortTrips_def using assms by (rule Array_sort_sort_key)
  then show ?thesis by (simp add: sort_key_stable)
qed

theorem C6_trip_ordering_witness:
  "map trip_id (map trip (sortTrips codeUnitCompare tiedTrips)) = [''T3'', ''T1'', ''T4'', ''T2'']
   \<and> mset (sortTrips codeUnitCompare tiedTrips) = mset tiedTrips
   \<and> sorted (map startTime (sortTrips codeUnitCompare tiedTrips))
   \<and> filter (\<lambda>x. startTime x = ''08:00:00'') (sortTrips codeUnitCompare tiedTrips) =
       filter (\<lambda>x. startTime x = ''08:00:00'') tiedTrips"
proof -
  have h: "\<forall>a\<in>set tiedTrips. \<forall>b\<in>set tiedTrips.
             (codeUnitCompare (startTime a) (startTime b) \<le> 0) = (startTime a \<le> startTime b)"
    by (auto simp: codeUnitCompare_def)
  have e: "map trip_id (map trip (sortTrips codeUnitCompare tiedTrips)) =
             [''T3'', ''T1'', ''T4'', ''T2'']"
    by code_simp
  show ?thesis using e C6_trip_ordering [OF h] by simp
qed

section \<open>Track Serializer: the document in closed form\<close>

lemma fold_trackPoint:
  "fold (trackPoint numStr) cs gpx = gpx @ concat (map (trkptElement numStr) cs)"
  by (induction cs arbitrary: gpx) (simp_all add: trackPoint_def trkptElement_def split: prod.splits)

lemma fold_waypoint:
  "fold (waypoint numStr) es gpx =
     gpx @ concat (map (wptElement numStr) (filter hasCoordinates es))"
  by (induction es arbitrary: gpx)
     (simp_all add: waypoint_def wptElement_def hasCoordinates_def split: option.splits)

text \<open>The document as the concatenation of its elements.\<close>

lemma createGPX_document:
  \<open>createGPX numStr pat shp includeStops =
     ''<?xml version="1.0" encoding="UTF-8"?>\<newline>''
     @ ''<gpx version="1.1" creator="CarrisDriverApp" xmlns="http://www.topografix.com/GPX/1/1">\<newline>''
     @ ''  <metadata>\<newline>    <name>''
     @ (if truthy (short_name pat) then template (short_name pat) else pattern_id pat)
     @ ''</name>\<newline>  </metadata>\<newline>''
     @ concat (wptElements numStr pat includeStops)
     @ ''  <trk>\<newline>    <name>'' @ template (short_name pat) @ '' (''
     @ (if direction pat = 0 then ''Ida'' else ''Volta'')
     @ '')</name>\<newline>    <trkseg>\<newline>''
     @ concat (map (trkptElement numStr) (coordinates shp))
     @ ''    </trkseg>\<newline>  </trk>\<newline></gpx>''\<close>
  by (simp add: createGPX_def Let_def fold_trackPoint fold_waypoint wptElements_def
           split: option.splits)

section \<open>Track Serializer: the claims\<close>

text \<open>
  \<^bold>\<open>C4\<close>. For every pattern and shape the document is a head that does not depend on the
  shape, then one track point per coordinate of the shape, in the order of the shape, with
  the second component of the pair \<open>[lon, lat]\<close> as \<open>lat\<close> and the first as \<open>lon\<close>, then the
  closing tags. Without stops the head has no waypoint. For a shape of two coordinates
  that print as \<open>-9.1\<close>, \<open>38.7\<close> and \<open>-9.2\<close>, \<open>38.8\<close> the track points are
  \<open>lat="38.7" lon="-9.1"\<close> and then \<open>lat="38.8" lon="-9.2"\<close>.
\<close>

theorem C4_track_points:
  \<open>(\<exists>head. \<forall>shp. createGPX numStr pat shp includeStops =
        head
        @ concat (map (\<lambda>(lon, lat). ''      <trkpt lat="'' @ numStr lat @ ''" lon="''
                                      @ numStr lon @ ''"></trkpt>\<newline>'')
                      (coordinates shp))
        @ ''    </trkseg>\<newline>  </trk>\<newline></gpx>'')
   \<and> createGPX numStr pat shp False =
       ''<?xml version="1.0" encoding="UTF-8"?>\<newline>''
       @ ''<gpx version="1.1" creator="CarrisDriverApp" xmlns="http://www.topografix.com/GPX/1/1">\<newline>''
       @ ''  <metadata>\<newline>    <name>''
       @ (if truthy (short_name pat) then template (short_name pat) else pattern_id pat)
       @ ''</name>\<newline>  </metadata>\<newline>''
       @ ''  <trk>\<newline>    <name>'' @ template (short_name pat) @ '' (''
       @ (if direction pat = 0 then ''Ida'' else ''Volta'')
       @ '')</name>\<newline>    <trkseg>\<newline>''
       @ concat (map (\<lambda>(lon, lat). ''      <trkpt lat="'' @ numStr lat @ ''" lon="''
                                     @ numStr lon @ ''"></trkpt>\<newline>'')
                     (coordinates shp))
       @ ''    </trkseg>\<newline>  </trk>\<newline></gpx>''
   \<and> (numStr lon1 = ''-9.1'' \<and> numStr lat1 = ''38.7'' \<and> numStr lon2 = ''-9.2''
        \<and> numStr lat2 = ''38.8'' \<longrightarrow>
      createGPX numStr pat \<lparr>coordinates = [(lon1, lat1), (lon2, lat2)]\<rparr> False =
        ''<?xml version="1.0" encoding="UTF-8"?>\<newline>''
        @ ''<gpx version="1.1" creator="CarrisDriverApp" xmlns="http://www.topografix.com/GPX/1/1">\<newline>''
        @ ''  <metadata>\<newline>    <name>''
        @ (if truthy (short_name pat) then template (short_name pat) else pattern_id pat)
        @ ''</name>\<newline>  </metadata>\<newline>''
        @ ''  <trk>\<newline>    <name>'' @ template (short_name pat) @ '' (''
        @ (if direction pat = 0 then ''Ida'' else ''Volta'')
        @ '')</name>\<newline>    <trkseg>\<newline>''
        @ ''      <trkpt lat="38.7" lon="-9.1"></trkpt>\<newline>''
        @ ''      <trkpt lat="38.8" lon="-9.2"></trkpt>\<newline>''
        @ ''    </trkseg>\<newline>  </trk>\<newline></gpx>'')\<close>
proof -
  have el: \<open>(\<lambda>(lon, lat). ''      <trkpt lat="'' @ numStr lat @ ''" lon="''
                            @ numStr lon @ ''"></trkpt>\<newline>'') = trkptElement numStr\<close>
    by (rule ext) (simp add: trkptElement_def split: prod.splits)
  define head where \<open>head =
     ''<?xml version="1.0" encoding="UTF-8"?>\<newline>''
     @ ''<gpx version="1.1" creator="CarrisDriverApp" xmlns="http://www.topografix.com/GPX/1/1">\<newline>''
     @ ''  <metadata>\<newline>    <name>''
     @ (if truthy (short_name pat) then template (short_name pat) else pattern_id pat)
     @ ''</name>\<newline>  </metadata>\<newline>''
     @ concat (wptElements numStr pat includeStops)
     @ ''  <trk>\<newline>    <name>'' @ template (short_name pat) @ '' (''
     @ (if direction pat = 0 then ''Ida'' else ''Volta'')
     @ '')</name>\<newline>    <trkseg>\<newline>''\<close>
  have \<open>\<forall>shp. createGPX numStr pat shp includeStops =
        head @ concat (map (trkptElement numStr) (coordinates shp))
        @ ''    </trkseg>\<newline>  </trk>\<newline></gpx>''\<close>
    by (simp add: head_def createGPX_document)
  then have general: \<open>\<exists>head. \<forall>shp. createGPX numStr pat shp includeStops =
        head @ concat (map (trkptElement numStr) (coordinates shp))
        @ ''    </trkseg>\<newline>  </trk>\<newline></gpx>''\<close>
    by blast
  have plain: \<open>createGPX numStr pat shp False =
       ''<?xml version="1.0" encoding="UTF-8"?>\<newline>''
       @ ''<gpx version="1.1" creator="CarrisDriverApp" xmlns="http://www.topografix.com/GPX/1/1">\<newline>''
       @ ''  <metadata>\<newline>    <name>''
       @ (if truthy (short_name pat) then template (short_name pat) else pattern_id pat)
       @ ''</name>\<newline>  </metadata>\<newline>''
       @ ''  <trk>\<newline>    <name>'' @ template (short_name pat) @ '' (''
       @ (if direction pat = 0 then ''Ida'' else ''Volta'')
       @ '')</name>\<newline>    <trkseg>\<newline>''
       @ concat (map (trkptElement numStr) (coordinates shp))
       @ ''    </trkseg>\<newline>  </trk>\<newline></gpx>''\<close>
    by (simp add: createGPX_document wptElements_def)
  have two: \<open>numStr lon1 = ''-9.1'' \<and> numStr lat1 = ''38.7'' \<and> numStr lon2 = ''-9.2''
        \<and> numStr lat2 = ''38.8'' \<longrightarrow>
      createGPX numStr pat \<lparr>coordinates = [(lon1, lat1), (lon2, lat2)]\<rparr> False =
        ''<?xml version="1.0" encoding="UTF-8"?>\<newline>''
        @ ''<gpx version="1.1" creator="CarrisDriverApp" xmlns="http://www.topografix.com/GPX/1/1">\<newline>''
        @ ''  <metadata>\<newline>    <name>''
        @ (if truthy (short_name pat) then template (short_name pat) else pattern_id pat)
        @ ''</name>\<newline>  </metadata>\<newline>''
        @ ''  <trk>\<newline>    <name>'' @ template (short_name pat) @ '' (''
        @ (if direction pat = 0 then ''Ida'' else ''Volta'')
        @ '')</name>\<newline>    <trkseg>\<newline>''
        @ ''      <trkpt lat="38.7" lon="-9.1"></trkpt>\<newline>''
        @ ''      <trkpt lat="38.8" lon="-9.2"></trkpt>\<newline>''
        @ ''    </trkseg>\<newline>  </trk>\<newline></gpx>''\<close>
    by (simp add: createGPX_document wptElements_def trkptElement_def)
  from general plain two show ?thesis
    unfolding el by (intro conjI)
qed

theorem C4_track_points_witness:
  \<open>createGPX (\<lambda>n. n) metroPattern sampleShape False =
     ''<?xml version="1.0" encoding="UTF-8"?>\<newline>''
     @ ''<gpx version="1.1" creator="CarrisDriverApp" xmlns="http://www.topografix.com/GPX/1/1">\<newline>''
     @ ''  <metadata>\<newline>    <name>1001_0_1</name>\<newline>  </metadata>\<newline>''
     @ ''  <trk>\<newline>    <name>1001_0_1 (Ida)</name>\<newline>    <trkseg>\<newline>''
     @ ''      <trkpt lat="38.7" lon="-9.1"></trkpt>\<newline>''
     @ ''      <trkpt lat="38.8" lon="-9.2"></trkpt>\<newline>''
     @ ''    </trkseg>\<newline>  </trk>\<newline></gpx>''
   \<and> countOccurrences ''<trkpt'' (createGPX (\<lambda>n. n) metroPattern sampleShape False) = 2
   \<and> countOccurrences ''<wpt'' (createGPX (\<lambda>n. n) metroPattern sampleShape False) = 0\<close>
proof -
  have doc: \<open>createGPX (\<lambda>n. n) metroPattern sampleShape False =
     ''<?xml version="1.0" encoding="UTF-8"?>\<newline>''
     @ ''<gpx version="1.1" creator="CarrisDriverApp" xmlns="http://www.topografix.com/GPX/1/1">\<newline>''
     @ ''  <metadata>\<newline>    <name>1001_0_1</name>\<newline>  </metadata>\<newline>''
     @ ''  <trk>\<newline>    <name>1001_0_1 (Ida)</name>\<newline>    <trkseg>\<newline>''
     @ ''      <trkpt lat="38.7" lon="-9.1"></trkpt>\<newline>''
     @ ''      <trkpt lat="38.8" lon="-9.2"></trkpt>\<newline>''
     @ ''    </trkseg>\<newline>  </trk>\<newline></gpx>''\<close>
    using C4_track_points [of "\<lambda>n. n" metroPattern False sampleShape
                              "''-9.1''" "''38.7''" "''-9.2''" "''38.8''"]
    by (simp add: sampleShape_def metroPattern_def samplePattern_def)
  have c1: \<open>countOccurrences ''<trkpt'' (createGPX (\<lambda>n. n) metroPattern sampleShape False) = 2\<close>
    unfolding doc by code_simp
  have c2: \<open>countOccurrences ''<wpt'' (createGPX (\<lambda>n. n) metroPattern sampleShape False) = 0\<close>
    unfolding doc by code_simp
  from doc c1 c2 show ?thesis by (intro conjI)
qed


text \<open>
  \<^bold>\<open>C10\<close>. The metadata name falls back from the pattern's \<open>short_name\<close> to its id, the
  track name does not: for a pattern without \<open>short_name\<close> the metadata name is the id and
  the track name is \<open>undefined\<close> followed by \<open>(Ida)\<close> or \<open>(Volta)\<close>; for a pattern with a
  non-empty \<open>short_name\<close> both names are that \<open>short_name\<close>; for an empty \<open>short_name\<close> the
  metadata name is the id and the track name is empty before the suffix.
\<close>

theorem C10_names:
  \<open>(short_name pat = None \<longrightarrow>
      createGPX numStr pat shp includeStops =
        ''<?xml version="1.0" encoding="UTF-8"?>\<newline>''
        @ ''<gpx version="1.1" creator="CarrisDriverApp" xmlns="http://www.topografix.com/GPX/1/1">\<newline>''
        @ ''  <metadata>\<newline>    <name>'' @ pattern_id pat
        @ ''</name>\<newline>  </metadata>\<newline>''
        @ concat (wptElements numStr pat includeStops)
        @ ''  <trk>\<newline>    <name>'' @ ''undefined'' @ '' (''
        @ (if direction pat = 0 then ''Ida'' else ''Volta'')
        @ '')</name>\<newline>    <trkseg>\<newline>''
        @ concat (map (trkptElement numStr) (coordinates shp))
        @ ''    </trkseg>\<newline>  </trk>\<newline></gpx>'')
   \<and> (short_name pat = Some s \<and> s \<noteq> [] \<longrightarrow>
      createGPX numStr pat shp includeStops =
        ''<?xml version="1.0" encoding="UTF-8"?>\<newline>''
        @ ''<gpx version="1.1" creator="CarrisDriverApp" xmlns="http://www.topografix.com/GPX/1/1">\<newline>''
        @ ''  <metadata>\<newline>    <name>'' @ s
        @ ''</name>\<newline>  </metadata>\<newline>''
        @ concat (wptElements numStr pat includeStops)
        @ ''  <trk>\<newline>    <name>'' @ s @ '' (''
        @ (if direction pat = 0 then ''Ida'' else ''Volta'')
        @ '')</name>\<newline>    <trkseg>\<newline>''
        @ concat (map (trkptElement numStr) (coordinates shp))
        @ ''    </trkseg>\<newline>  </trk>\<newline></gpx>'')
   \<and> (short_name pat = Some [] \<longrightarrow>
      createGPX numStr pat shp includeStops =
        ''<?xml version="1.0" encoding="UTF-8"?>\<newline>''
        @ ''<gpx version="1.1" creator="CarrisDriverApp" xmlns="http://www.topografix.com/GPX/1/1">\<newline>''
        @ ''  <metadata>\<newline>    <name>'' @ pattern_id pat
        @ ''</name>\<newline>  </metadata>\<newline>''
        @ concat (wptElements numStr pat includeStops)
        @ ''  <trk>\<newline>    <name>'' @ [] @ '' (''
        @ (if direction pat = 0 then ''Ida'' else ''Volta'')
        @ '')</name>\<newline>    <trkseg>\<newline>''
        @ concat (map (trkptElement numStr) (coordinates shp))
        @ ''    </trkseg>\<newline>  </trk>\<newline></gpx>'')\<close>
proof -
  have absent: \<open>short_name pat = None \<longrightarrow>
      createGPX numStr pat shp includeStops =
        ''<?xml version="1.0" encoding="UTF-8"?>\<newline>''
        @ ''<gpx version="1.1" creator="CarrisDriverApp" xmlns="http://www.topografix.com/GPX/1/1">\<newline>''
        @ ''  <metadata>\<newline>    <name>'' @ pattern_id pat
        @ ''</name>\<newline>  </metadata>\<newline>''
        @ concat (wptElements numStr pat includeStops)
        @ ''  <trk>\<newline>    <name>'' @ ''undefined'' @ '' (''
        @ (if direction pat = 0 then ''Ida'' else ''Volta'')
        @ '')</name>\<newline>    <trkseg>\<newline>''
        @ concat (map (trkptElement numStr) (coordinates shp))
        @ ''    </trkseg>\<newline>  </trk>\<newline></gpx>''\<close>
    by (simp add: createGPX_document)
  have present: \<open>short_name pat = Some s \<and> s \<noteq> [] \<longrightarrow>
      createGPX numStr pat shp includeStops =
        ''<?xml version="1.0" encoding="UTF-8"?>\<newline>''
        @ ''<gpx version="1.1" creator="CarrisDriverApp" xmlns="http://www.topografix.com/GPX/1/1">\<newline>''
        @ ''  <metadata>\<newline>    <name>'' @ s
        @ ''</name>\<newline>  </metadata>\<newline>''
        @ concat (wptElements numStr pat includeStops)
        @ ''  <trk>\<newline>    <name>'' @ s @ '' (''
        @ (if direction pat = 0 then ''Ida'' else ''Volta'')
        @ '')</name>\<newline>    <trkseg>\<newline>''
        @ concat (map (trkptElement numStr) (coordinates shp))
        @ ''    </trkseg>\<newline>  </trk>\<newline></gpx>''\<close>
    by (simp add: createGPX_document)
  have empty: \<open>short_name pat = Some [] \<longrightarrow>
      createGPX numStr pat shp includeStops =
        ''<?xml version="1.0" encoding="UTF-8"?>\<newline>''
        @ ''<gpx version="1.1" creator="CarrisDriverApp" xmlns="http://www.topografix.com/GPX/1/1">\<newline>''
        @ ''  <metadata>\<newline>    <name>'' @ pattern_id pat
        @ ''</name>\<newline>  </metadata>\<newline>''
        @ concat (wptElements numStr pat includeStops)
        @ ''  <trk>\<newline>    <name>'' @ [] @ '' (''
        @ (if direction pat = 0 then ''Ida'' else ''Volta'')
        @ '')</name>\<newline>    <trkseg>\<newline>''
        @ concat (map (trkptElement numStr) (coordinates shp))
        @ ''    </trkseg>\<newline>  </trk>\<newline></gpx>''\<close>
    by (simp add: createGPX_document)
  from absent present empty show ?thesis by (intro conjI)
qed

text \<open>
  A pattern without \<open>short_name\<close>, and a pattern whose \<open>short_name\<close> differs from its id.
\<close>

theorem C10_names_witness:
  \<open>short_name unnamedPattern = None
   \<and> createGPX (\<lambda>n. n) unnamedPattern sampleShape False =
     ''<?xml version="1.0" encoding="UTF-8"?>\<newline>''
     @ ''<gpx version="1.1" creator="CarrisDriverApp" xmlns="http://www.topografix.com/GPX/1/1">\<newline>''
     @ ''  <metadata>\<newline>    <name>1001_0_2</name>\<newline>  </metadata>\<newline>''
     @ ''  <trk>\<newline>    <name>undefined (Volta)</name>\<newline>    <trkseg>\<newline>''
     @ ''      <trkpt lat="38.7" lon="-9.1"></trkpt>\<newline>''
     @ ''      <trkpt lat="38.8" lon="-9.2"></trkpt>\<newline>''
     @ ''    </trkseg>\<newline>  </trk>\<newline></gpx>''
   \<and> short_name namedPattern = Some ''Alcochete - Montijo''
   \<and> pattern_id namedPattern = ''1001_0_3''
   \<and> createGPX (\<lambda>n. n) namedPattern sampleShape False =
     ''<?xml version="1.0" encoding="UTF-8"?>\<newline>''
     @ ''<gpx version="1.1" creator="CarrisDriverApp" xmlns="http://www.topografix.com/GPX/1/1">\<newline>''
     @ ''  <metadata>\<newline>    <name>Alcochete - Montijo</name>\<newline>  </metadata>\<newline>''
     @ ''  <trk>\<newline>    <name>Alcochete - Montijo (Ida)</name>\<newline>    <trkseg>\<newline>''
     @ ''      <trkpt lat="38.7" lon="-9.1"></trkpt>\<newline>''
     @ ''      <trkpt lat="38.8" lon="-9.2"></trkpt>\<newline>''
     @ ''    </trkseg>\<newline>  </trk>\<newline></gpx>''\<close>
proof -
  have u: "short_name unnamedPattern = None"
    by (simp add: unnamedPattern_def)
  have n: "short_name namedPattern = Some ''Alcochete - Montijo''"
    by (simp add: namedPattern_def)
  have i: "pattern_id namedPattern = ''1001_0_3''"
    by (simp add: namedPattern_def samplePattern_def)
  have ne: "short_name namedPattern = Some ''Alcochete - Montijo'' \<and> ''Alcochete - Montijo'' \<noteq> []"
    using n by simp
  note at_u = C10_names [where numStr = "\<lambda>n. n" and pat = unnamedPattern and shp = sampleShape
      and includeStops = False, THEN conjunct1]
  note at_n = C10_names [where numStr = "\<lambda>n. n" and pat = namedPattern and shp = sampleShape
      and includeStops = False and s = "''Alcochete - Montijo''", THEN conjunct2, THEN conjunct1]
  have d1: \<open>createGPX (\<lambda>n. n) unnamedPattern sampleShape False =
     ''<?xml version="1.0" encoding="UTF-8"?>\<newline>''
     @ ''<gpx version="1.1" creator="CarrisDriverApp" xmlns="http://www.topografix.com/GPX/1/1">\<newline>''
     @ ''  <metadata>\<newline>    <name>1001_0_2</name>\<newline>  </metadata>\<newline>''
     @ ''  <trk>\<newline>    <name>undefined (Volta)</name>\<newline>    <trkseg>\<newline>''
     @ ''      <trkpt lat="38.7" lon="-9.1"></trkpt>\<newline>''
     @ ''      <trkpt lat="38.8" lon="-9.2"></trkpt>\<newline>''
     @ ''    </trkseg>\<newline>  </trk>\<newline></gpx>''\<close>
    using u at_u
    by (simp add: unnamedPattern_def samplePattern_def sampleShape_def wptElements_def
                  trkptElement_def)
  have d2: \<open>createGPX (\<lambda>n. n) namedPattern sampleShape False =
     ''<?xml version="1.0" encoding="UTF-8"?>\<newline>''
     @ ''<gpx version="1.1" creator="CarrisDriverApp" xmlns="http://www.topografix.com/GPX/1/1">\<newline>''
     @ ''  <metadata>\<newline>    <name>Alcochete - Montijo</name>\<newline>  </metadata>\<newline>''
     @ ''  <trk>\<newline>    <name>Alcochete - Montijo (Ida)</name>\<newline>    <trkseg>\<newline>''
     @ ''      <trkpt lat="38.7" lon="-9.1"></trkpt>\<newline>''
     @ ''      <trkpt lat="38.8" lon="-9.2"></trkpt>\<newline>''
     @ ''    </trkseg>\<newline>  </trk>\<newline></gpx>''\<close>
    using ne at_n
    by (simp add: namedPattern_def samplePattern_def sampleShape_def wptElements_def
                  trkptElement_def)
  from u d1 n i d2 show ?thesis by (intro conjI)
qed

section \<open>Direction Classifier: the label in closed form\<close>

lemma countVote_castVote:
  assumes "case path p of None \<Rightarrow> True | Some es \<Rightarrow> es = [] \<or> stop (last es) \<noteq> None"
  shows "countVote p counts = Inr (fold castVote (patternVote p) counts)"
proof (cases "path p")
  case None
  then show ?thesis by (simp add: countVote_def patternVote_def)
next
  case (Some es)
  show ?thesis
  proof (cases "es = []")
    case True
    with Some show ?thesis by (simp add: countVote_def patternVote_def)
  next
    case False
    with assms Some obtain s where s: "stop (last es) = Some s" by auto
    have "es ! (length es - 1) = last es" using False by (simp add: last_conv_nth)
    with Some False s show ?thesis
      by (simp add: countVote_def patternVote_def castVote_def Let_def)
  qed
qed

lemma forEachVote_fold:
  "list_all (\<lambda>p. case path p of None \<Rightarrow> True | Some es \<Rightarrow> es = [] \<or> stop (last es) \<noteq> None) ps \<Longrightarrow>
   forEachVote ps counts = Inr (fold castVote (concat (map patternVote ps)) counts)"
proof (induction ps arbitrary: counts)
  case Nil
  show ?case by simp
next
  case (Cons p ps)
  then show ?case by (simp add: countVote_castVote)
qed

lemma set_firstSeen [simp]: "set (firstSeen xs) = set xs"
  by (induction xs) auto

lemma distinct_firstSeen [simp]: "distinct (firstSeen xs)"
  by (induction xs) auto

lemma firstSeen_snoc:
  "firstSeen (xs @ [x]) = (if x \<in> set xs then firstSeen xs else firstSeen xs @ [x])"
  by (induction xs) auto

lemma tally_snoc: "tally (vs @ [v]) n = tally vs n + (if fst v = n then snd v else 0)"
  by (simp add: tally_def)

lemma tally_absent: "n \<notin> fst ` set vs \<Longrightarrow> tally vs n = 0"
proof -
  assume "n \<notin> fst ` set vs"
  then have "filter (\<lambda>v. fst v = n) vs = []" by (auto simp: filter_empty_conv)
  then show ?thesis by (simp add: tally_def)
qed

lemma map_of_tabulate:
  "map_of (map (\<lambda>n. (n, g n)) ks) n = (if n \<in> set ks then Some (g n) else None)"
  by (induction ks) auto

lemma Object_set_tabulate:
  "distinct ks \<Longrightarrow>
   Object_set n v (map (\<lambda>m. (m, g m)) ks) =
     (if n \<in> set ks then map (\<lambda>m. (m, if m = n then v else g m)) ks
      else map (\<lambda>m. (m, g m)) ks @ [(n, v)])"
  by (induction ks) auto

lemma proto_inherited: "''__proto__'' \<in> set inheritedKeys"
  by (simp add: inheritedKeys_def)

text \<open>
  The tally after all votes, where no voted name is one that the object inherits: every
  name once, in first-seen order, with the sum of its weights.
\<close>

lemma castVote_tabulate:
  assumes "fst v \<notin> set inheritedKeys" and "distinct ks"
  shows "castVote v (map (\<lambda>n. (n, Num (g n))) ks) =
           (if fst v \<in> set ks
            then map (\<lambda>n. (n, Num (if n = fst v then g n + snd v else g n))) ks
            else map (\<lambda>n. (n, Num (g n))) ks @ [(fst v, Num (snd v))])"
proof -
  have np: "fst v \<noteq> ''__proto__''" using assms(1) proto_inherited by auto
  show ?thesis
    using assms np
    by (auto simp: castVote_def Object_put_def plusWeight_def map_of_tabulate
                   Object_set_tabulate)
qed

lemma fold_castVote:
  assumes "\<forall>v\<in>set vs. fst v \<notin> set inheritedKeys"
  shows "fold castVote vs [] = map (\<lambda>n. (n, Num (tally vs n))) (firstSeen (map fst vs))"
  using assms
proof (induction vs rule: rev_induct)
  case Nil
  show ?case by simp
next
  case (snoc v vs)
  let ?ks = "firstSeen (map fst vs)"
  from snoc.prems have pv: "fst v \<notin> set inheritedKeys"
    and pvs: "\<forall>v\<in>set vs. fst v \<notin> set inheritedKeys" by simp_all
  have "fold castVote (vs @ [v]) [] = castVote v (map (\<lambda>n. (n, Num (tally vs n))) ?ks)"
    by (simp add: snoc.IH [OF pvs])
  also have "\<dots> =
      (if fst v \<in> set ?ks
       then map (\<lambda>n. (n, Num (if n = fst v then tally vs n + snd v else tally vs n))) ?ks
       else map (\<lambda>n. (n, Num (tally vs n))) ?ks @ [(fst v, Num (snd v))])"
    by (rule castVote_tabulate [OF pv]) simp
  also have "\<dots> = map (\<lambda>n. (n, Num (tally (vs @ [v]) n))) (firstSeen (map fst (vs @ [v])))"
    by (auto simp: firstSeen_snoc tally_snoc tally_absent)
  finally show ?case .
qed

lemma insort_key_map:
  "insort_key f (h x) (map h xs) = map h (insort_key (\<lambda>x. f (h x)) x xs)"
  by (induction xs) simp_all

lemma sort_key_map:
  "sort_key f (map h xs) = map h (sort_key (\<lambda>x. f (h x)) xs)"
  by (induction xs) (simp_all add: insort_key_map)

lemma Object_entries_tabulate:
  "Object_entries (map (\<lambda>n. (n, g n)) ks) = map (\<lambda>n. (n, g n)) (keyOrder ks)"
  by (simp add: Object_entries_def keyOrder_def filter_map comp_def sort_key_map)

text \<open>
  On entries that are all numbers, the loop of lines 271-276 returns the first entry whose
  count is the greatest, or the initial pair if no count exceeds the initial one.
\<close>

lemma selectBest_first_max:
  "selectBest b (map (\<lambda>e. (fst e, Num (snd e))) es) = b \<and> (\<forall>x\<in>set es. snd x \<le> snd b)
   \<or> (\<exists>pre post r. selectBest b (map (\<lambda>e. (fst e, Num (snd e))) es) = r
         \<and> es = pre @ r # post \<and> snd b < snd r
         \<and> (\<forall>x\<in>set pre. snd x < snd r)
         \<and> (\<forall>x\<in>set post. snd x \<le> snd r))"
proof (induction es arbitrary: b)
  case Nil
  show ?case by simp
next
  case (Cons e es)
  let ?N = "map (\<lambda>e. (fst e, Num (snd e)))"
  show ?case
  proof (cases "snd e > snd b")
    case True
    then have sb: "selectBest b (?N (e # es)) = selectBest e (?N es)" by simp
    from Cons.IH [of e] show ?thesis
    proof
      assume h: "selectBest e (?N es) = e \<and> (\<forall>x\<in>set es. snd x \<le> snd e)"
      then have "selectBest b (?N (e # es)) = e" using sb by simp
      moreover have "e # es = [] @ e # es" by simp
      moreover have "\<forall>x\<in>set es. snd x \<le> snd e" using h by simp
      moreover have "\<forall>x\<in>set ([]::(string \<times> int) list). snd x < snd e" by simp
      ultimately show ?thesis using True by blast
    next
      assume "\<exists>pre post r. selectBest e (?N es) = r
         \<and> es = pre @ r # post \<and> snd e < snd r
         \<and> (\<forall>x\<in>set pre. snd x < snd r)
         \<and> (\<forall>x\<in>set post. snd x \<le> snd r)"
      then obtain pre post r where h: "selectBest e (?N es) = r" "es = pre @ r # post"
        "snd e < snd r" "\<forall>x\<in>set pre. snd x < snd r" "\<forall>x\<in>set post. snd x \<le> snd r"
        by blast
      have "selectBest b (?N (e # es)) = r" using h(1) sb by simp
      moreover have "e # es = (e # pre) @ r # post" using h(2) by simp
      moreover have "snd b < snd r" using h(3) True by simp
      moreover have "\<forall>x\<in>set (e # pre). snd x < snd r" using h(3,4) by simp
      ultimately show ?thesis using h(5) by blast
    qed
  next
    case False
    then have sb: "selectBest b (?N (e # es)) = selectBest b (?N es)" by simp
    from Cons.IH [of b] show ?thesis
    proof
      assume "selectBest b (?N es) = b \<and> (\<forall>x\<in>set es. snd x \<le> snd b)"
      then show ?thesis using False sb by simp
    next
      assume "\<exists>pre post r. selectBest b (?N es) = r
         \<and> es = pre @ r # post \<and> snd b < snd r
         \<and> (\<forall>x\<in>set pre. snd x < snd r)
         \<and> (\<forall>x\<in>set post. snd x \<le> snd r)"
      then obtain pre post r where h: "selectBest b (?N es) = r" "es = pre @ r # post"
        "snd b < snd r" "\<forall>x\<in>set pre. snd x < snd r" "\<forall>x\<in>set post. snd x \<le> snd r"
        by blast
      have "selectBest b (?N (e # es)) = r" using h(1) sb by simp
      moreover have "e # es = (e # pre) @ r # post" using h(2) by simp
      moreover have "\<forall>x\<in>set (e # pre). snd x < snd r" using h(3,4) False by simp
      ultimately show ?thesis using h(3,5) by blast
    qed
  qed
qed

lemma weight_nonneg: "0 \<le> weight p"
  by (simp add: weight_def split: option.splits)

lemma tally_votes_nonneg: "0 \<le> tally (votes ps dir) n"
proof -
  have "\<forall>v\<in>set (votes ps dir). 0 \<le> snd v"
    by (auto simp: votes_def patternVote_def weight_nonneg split: option.splits if_splits)
  then show ?thesis unfolding tally_def by (intro sum_list_nonneg) auto
qed

lemma stopsPresent_filter:
  "stopsPresent ps dir \<Longrightarrow>
   list_all (\<lambda>p. case path p of None \<Rightarrow> True | Some es \<Rightarrow> es = [] \<or> stop (last es) \<noteq> None)
            (filter (\<lambda>p. direction p = dir) ps)"
  by (induction ps) (auto simp: stopsPresent_def)

text \<open>The label in terms of the tally, where no voted name is an inherited one.\<close>

lemma getDestinationName_tally:
  assumes "stopsPresent ps dir"
    and "\<forall>n\<in>set (map fst (votes ps dir)). n \<notin> set inheritedKeys"
  shows "getDestinationName ps dir =
           Inr (fst (selectBest (if dir = 0 then ''Ida'' else ''Volta'', - 1)
                  (map (\<lambda>n. (n, Num (tally (votes ps dir) n)))
                       (keyOrder (firstSeen (map fst (votes ps dir)))))))"
proof (cases "filter (\<lambda>p. direction p = dir) ps = []")
  case True
  then show ?thesis by (simp add: getDestinationName_def votes_def keyOrder_def)
next
  case False
  have pl: "\<forall>v\<in>set (votes ps dir). fst v \<notin> set inheritedKeys" using assms(2) by simp
  have "forEachVote (filter (\<lambda>p. direction p = dir) ps) [] =
          Inr (fold castVote (votes ps dir) [])"
    using forEachVote_fold [OF stopsPresent_filter [OF assms(1)], of "[]"]
    by (simp add: votes_def)
  then show ?thesis
    using False
    by (simp add: getDestinationName_def Let_def fold_castVote [OF pl]
                  Object_entries_tabulate)
qed

lemma keyOrder_Nil_iff: "keyOrder ks = [] \<longleftrightarrow> ks = []"
proof -
  have "set (keyOrder ks) = set ks" by (auto simp: keyOrder_def)
  then show ?thesis by (metis set_empty)
qed

lemma getDestinationName_no_votes:
  assumes "stopsPresent ps dir" and "votes ps dir = []"
  shows "getDestinationName ps dir = Inr (if dir = 0 then ''Ida'' else ''Volta'')"
  using getDestinationName_tally [OF assms(1)] assms(2) by (simp add: keyOrder_def)

lemma getDestinationName_first_max:
  assumes sp: "stopsPresent ps dir" and ne: "votes ps dir \<noteq> []"
    and pl: "\<forall>n\<in>set (map fst (votes ps dir)). n \<notin> set inheritedKeys"
  shows "\<exists>label pre post.
           getDestinationName ps dir = Inr label
           \<and> keyOrder (firstSeen (map fst (votes ps dir))) = pre @ label # post
           \<and> (\<forall>n\<in>set pre. tally (votes ps dir) n < tally (votes ps dir) label)
           \<and> (\<forall>n\<in>set post. tally (votes ps dir) n \<le> tally (votes ps dir) label)"
proof -
  let ?vs = "votes ps dir"
  let ?ks = "keyOrder (firstSeen (map fst ?vs))"
  let ?es = "map (\<lambda>n. (n, tally ?vs n)) ?ks"
  let ?N = "map (\<lambda>e. (fst e, Num (snd e)))"
  let ?b = "(if dir = 0 then ''Ida'' else ''Volta'', - 1 :: int)"
  have en: "map (\<lambda>n. (n, Num (tally ?vs n))) ?ks = ?N ?es" by (simp add: comp_def)
  have lab: "getDestinationName ps dir = Inr (fst (selectBest ?b (?N ?es)))"
    using getDestinationName_tally [OF sp pl] by (simp only: en)
  from ne have "firstSeen (map fst ?vs) \<noteq> []" by (cases ?vs) auto
  then have ksne: "?ks \<noteq> []" by (simp add: keyOrder_Nil_iff)
  then obtain k where k: "k \<in> set ?ks" by (cases ?ks) auto
  have "\<not> (\<forall>x\<in>set ?es. snd x \<le> snd ?b)"
  proof
    assume "\<forall>x\<in>set ?es. snd x \<le> snd ?b"
    then have "tally ?vs k \<le> - 1" using k by auto
    with tally_votes_nonneg [of ps dir k] show False by simp
  qed
  with selectBest_first_max [of ?b ?es]
  obtain pre post r where h: "selectBest ?b (?N ?es) = r" "?es = pre @ r # post"
    "\<forall>x\<in>set pre. snd x < snd r" "\<forall>x\<in>set post. snd x \<le> snd r"
    by blast
  have mem: "r \<in> set ?es" by (subst h(2)) simp
  then have sr: "snd r = tally ?vs (fst r)" by auto
  have fs: "map fst ?es = ?ks" by (simp add: comp_def)
  have ks: "?ks = map fst pre @ fst r # map fst post"
    using arg_cong [OF h(2), of "map fst"] fs by simp
  have pre_in: "set pre \<subseteq> set ?es" by (subst h(2)) auto
  have post_in: "set post \<subseteq> set ?es" by (subst h(2)) auto
  have p1: "\<forall>n\<in>set (map fst pre). tally ?vs n < tally ?vs (fst r)"
  proof
    fix n assume "n \<in> set (map fst pre)"
    then obtain x where x: "x \<in> set pre" "n = fst x" by auto
    with pre_in have "snd x = tally ?vs n" by auto
    with h(3) x sr show "tally ?vs n < tally ?vs (fst r)" by auto
  qed
  have p2: "\<forall>n\<in>set (map fst post). tally ?vs n \<le> tally ?vs (fst r)"
  proof
    fix n assume "n \<in> set (map fst post)"
    then obtain x where x: "x \<in> set post" "n = fst x" by auto
    with post_in have "snd x = tally ?vs n" by auto
    with h(4) x sr show "tally ?vs n \<le> tally ?vs (fst r)" by auto
  qed
  have "getDestinationName ps dir = Inr (fst r)" using lab h(1) by simp
  with ks p1 p2 show ?thesis by blast
qed

lemma keyOrder_no_index: "\<forall>k\<in>set ks. \<not> isArrayIndex k \<Longrightarrow> keyOrder ks = ks"
proof -
  assume h: "\<forall>k\<in>set ks. \<not> isArrayIndex k"
  then have "filter isArrayIndex ks = []" by (simp add: filter_empty_conv)
  moreover from h have "filter (\<lambda>k. \<not> isArrayIndex k) ks = ks" by (simp add: filter_id_conv)
  ultimately show ?thesis by (simp add: keyOrder_def)
qed

section \<open>Direction Classifier: the claims\<close>

lemma forEachVote_append:
  "forEachVote (xs @ ys) counts =
     (case forEachVote xs counts of Inl e \<Rightarrow> Inl e | Inr counts' \<Rightarrow> forEachVote ys counts')"
  by (induction xs arbitrary: counts) (simp_all split: sum.splits)

lemma countVote_empty_path:
  "path p = None \<or> path p = Some [] \<Longrightarrow> countVote p counts = Inr counts"
  by (auto simp: countVote_def)

lemma forEachVote_skip:
  "path p = None \<or> path p = Some [] \<Longrightarrow>
   forEachVote (xs @ p # ys) counts = forEachVote (xs @ ys) counts"
  by (simp add: forEachVote_append countVote_empty_path split: sum.splits)

lemma getDestinationName_filtered:
  "filter (\<lambda>p. direction p = dir) ps = fs \<Longrightarrow>
   getDestinationName ps dir =
     (if fs = [] then Inr (if dir = 0 then ''Ida'' else ''Volta'')
      else case forEachVote fs [] of
             Inl e \<Rightarrow> Inl e
           | Inr counts \<Rightarrow>
               Inr (fst (selectBest (if dir = 0 then ''Ida'' else ''Volta'', - 1)
                                    (Object_entries counts))))"
  by (auto simp: getDestinationName_def)

lemma getDestinationName_skip:
  assumes "path p = None \<or> path p = Some []"
  shows "getDestinationName (qs @ p # rs) dir = getDestinationName (qs @ rs) dir"
proof (cases "direction p = dir")
  case False
  then show ?thesis by (simp add: getDestinationName_def)
next
  case True
  let ?fq = "filter (\<lambda>p. direction p = dir) qs"
  let ?fr = "filter (\<lambda>p. direction p = dir) rs"
  have f: "filter (\<lambda>p. direction p = dir) (qs @ p # rs) = ?fq @ p # ?fr" using True by simp
  have g: "filter (\<lambda>p. direction p = dir) (qs @ rs) = ?fq @ ?fr" by simp
  have skip: "forEachVote (?fq @ p # ?fr) [] = forEachVote (?fq @ ?fr) []"
    by (rule forEachVote_skip [OF assms])
  show ?thesis
  proof (cases "?fq @ ?fr = []")
    case True
    then have "forEachVote (?fq @ p # ?fr) [] = Inr []"
      using assms by (simp add: countVote_empty_path)
    then show ?thesis
      unfolding getDestinationName_filtered [OF f] getDestinationName_filtered [OF g]
      using True by (simp add: Object_entries_def)
  next
    case False
    have ne: "?fq @ p # ?fr \<noteq> []" by simp
    show ?thesis
      unfolding getDestinationName_filtered [OF f] getDestinationName_filtered [OF g]
      by (simp only: ne False if_False skip)
  qed
qed

lemma getDestinationName_no_pattern:
  "filter (\<lambda>p. direction p = dir) ps = [] \<Longrightarrow>
   getDestinationName ps dir = Inr (if dir = 0 then ''Ida'' else ''Volta'')"
  by (simp add: getDestinationName_def)

lemma getDestinationName_two:
  assumes "direction a = dir" "path a = Some ea" "ea \<noteq> []" "stop (last ea) = Some sa"
    "stop_name sa = ''X''" "trips a = Some ta" "length ta = 2"
    and "direction b = dir" "path b = Some eb" "eb \<noteq> []" "stop (last eb) = Some sb"
    "stop_name sb = ''Y''" "trips b = Some tb" "length tb = 5"
  shows "getDestinationName [a, b] dir = Inr ''Y''" and "getDestinationName [b, a] dir = Inr ''Y''"
proof -
  have la: "ea ! (length ea - 1) = last ea" using assms(3) by (simp add: last_conv_nth)
  have lb: "eb ! (length eb - 1) = last eb" using assms(10) by (simp add: last_conv_nth)
  have x: "\<not> isArrayIndex ''X''" "\<not> isArrayIndex ''Y''"
    by (simp_all add: isArrayIndex_def isDigit_def)
  show "getDestinationName [a, b] dir = Inr ''Y''"
    using assms la lb x
    by (simp add: getDestinationName_def countVote_def weight_def Object_entries_def Let_def
                  Object_put_def plusWeight_def inheritedKeys_def)
  show "getDestinationName [b, a] dir = Inr ''Y''"
    using assms la lb x
    by (simp add: getDestinationName_def countVote_def weight_def Object_entries_def Let_def
                  Object_put_def plusWeight_def inheritedKeys_def)
qed


lemma map_of_Object_set:
  "map_of (Object_set k v kvs) n = (if n = k then Some v else map_of kvs n)"
  by (induction kvs) auto

lemma map_of_Object_put:
  "map_of (Object_put k v kvs) n =
     (if k = ''__proto__'' then map_of kvs n else if n = k then Some v else map_of kvs n)"
  by (simp add: Object_put_def map_of_Object_set)

text \<open>
  A count is a string only under an inherited name: this holds of the empty object and
  every vote keeps it.
\<close>

lemma countVote_Str_inherited:
  assumes "countVote p counts = Inr counts'"
    and "\<forall>n. map_of counts n = Some Str \<longrightarrow> n \<in> set inheritedKeys"
  shows "\<forall>n. map_of counts' n = Some Str \<longrightarrow> n \<in> set inheritedKeys"
  using assms
  by (auto simp: countVote_def Let_def map_of_Object_put plusWeight_def
           split: option.splits if_splits jsvalue.splits)

lemma forEachVote_Str_inherited:
  assumes "forEachVote ps counts = Inr counts'"
    and "\<forall>n. map_of counts n = Some Str \<longrightarrow> n \<in> set inheritedKeys"
  shows "\<forall>n. map_of counts' n = Some Str \<longrightarrow> n \<in> set inheritedKeys"
  using assms
proof (induction ps arbitrary: counts)
  case Nil
  then show ?case by simp
next
  case (Cons p ps)
  from Cons.prems(1) obtain c1 where c1: "countVote p counts = Inr c1"
    and rest: "forEachVote ps c1 = Inr counts'"
    by (auto split: sum.splits)
  from countVote_Str_inherited [OF c1 Cons.prems(2)] Cons.IH [OF rest] show ?case by blast
qed

text \<open>
  \<^bold>\<open>C1\<close>, as amended. For a pattern with a non-empty path whose last stop bears a name that
  the object does not inherit, the vote is weighted by the number of trips of the pattern:
  on the counts that the loop has reached, the count of that name grows by \<open>weight p\<close> and
  no other count changes. The weight of a pattern with an empty list of trips is \<open>0\<close>; it
  is \<open>1\<close> only for a pattern that has no \<open>trips\<close> at all.
\<close>

theorem C1_vote_weight:
  assumes "forEachVote qs [] = Inr counts"
    and "path p = Some es" and "es \<noteq> []" and "stop (last es) = Some s"
    and "stop_name s \<notin> set inheritedKeys"
  shows "(\<exists>counts'. countVote p counts = Inr counts'
            \<and> map_of counts' (stop_name s) =
                Some (Num ((case map_of counts (stop_name s) of
                              None \<Rightarrow> 0 | Some (Num c) \<Rightarrow> c | Some Str \<Rightarrow> 0) + weight p))
            \<and> (\<forall>n. n \<noteq> stop_name s \<longrightarrow> map_of counts' n = map_of counts n))
         \<and> (\<forall>ts. trips p = Some ts \<longrightarrow> weight p = int (length ts))
         \<and> (trips p = Some [] \<longrightarrow> weight p = 0)
         \<and> (trips p = None \<longrightarrow> weight p = 1)"
proof -
  have inv: "\<forall>n. map_of counts n = Some Str \<longrightarrow> n \<in> set inheritedKeys"
    by (rule forEachVote_Str_inherited [OF assms(1)]) simp
  with assms(5) have ns: "map_of counts (stop_name s) \<noteq> Some Str" by blast
  have np: "stop_name s \<noteq> ''__proto__''" using assms(5) proto_inherited by auto
  have le: "es ! (length es - 1) = last es" using assms(3) by (simp add: last_conv_nth)
  have cv: "countVote p counts =
              Inr (Object_put (stop_name s) (plusWeight counts (stop_name s) (weight p)) counts)"
    using assms(2,3,4) le by (simp add: countVote_def Let_def)
  have pw: "plusWeight counts (stop_name s) (weight p) =
              Num ((case map_of counts (stop_name s) of
                      None \<Rightarrow> 0 | Some (Num c) \<Rightarrow> c | Some Str \<Rightarrow> 0) + weight p)"
    using ns assms(5) by (simp add: plusWeight_def split: option.splits jsvalue.splits)
  have first: "\<exists>counts'. countVote p counts = Inr counts'
            \<and> map_of counts' (stop_name s) =
                Some (Num ((case map_of counts (stop_name s) of
                              None \<Rightarrow> 0 | Some (Num c) \<Rightarrow> c | Some Str \<Rightarrow> 0) + weight p))
            \<and> (\<forall>n. n \<noteq> stop_name s \<longrightarrow> map_of counts' n = map_of counts n)"
    using np by (simp add: cv pw map_of_Object_put)
  have rest: "(\<forall>ts. trips p = Some ts \<longrightarrow> weight p = int (length ts))
         \<and> (trips p = Some [] \<longrightarrow> weight p = 0)
         \<and> (trips p = None \<longrightarrow> weight p = 1)"
    by (simp add: weight_def)
  from first rest show ?thesis by (rule conjI)
qed

theorem C1_vote_weight_witness:
  "forEachVote [votePatterns ! 2, votePatterns ! 0] [] = Inr [(''Y'', Num 5), (''X'', Num 2)]
   \<and> countVote (votePatterns ! 0) [(''Y'', Num 5), (''X'', Num 2)] =
       Inr [(''Y'', Num 5), (''X'', Num 4)]
   \<and> weight (votePatterns ! 0) = 2"
proof -
  have q: "forEachVote [votePatterns ! 2, votePatterns ! 0] [] =
             Inr [(''Y'', Num 5), (''X'', Num 2)]"
    by code_simp
  have p: "path (votePatterns ! 0) =
             Some [\<lparr>stop = Some \<lparr>stop_id = ''W'', stop_name = ''W'', stop_lat = Some ''38.7'',
                                  stop_lon = Some ''-9.1''\<rparr>, stop_sequence = 1\<rparr>,
                   \<lparr>stop = Some \<lparr>stop_id = ''X'', stop_name = ''X'', stop_lat = Some ''38.7'',
                                  stop_lon = Some ''-9.1''\<rparr>, stop_sequence = 1\<rparr>]"
    by (simp add: votePatterns_def samplePattern_def)
  have t: "trips (votePatterns ! 0) =
             Some [sampleTrip 1 ''T1'' [] [], sampleTrip 1 ''T2'' [] []]"
    by (simp add: votePatterns_def samplePattern_def)
  have x: "''X'' \<notin> set inheritedKeys" by (simp add: inheritedKeys_def)
  note inst = C1_vote_weight [OF q p, of "\<lparr>stop_id = ''X'', stop_name = ''X'',
      stop_lat = Some ''38.7'', stop_lon = Some ''-9.1''\<rparr>"]
  have w: "weight (votePatterns ! 0) = 2"
    using inst x t by simp
  have c: "countVote (votePatterns ! 0) [(''Y'', Num 5), (''X'', Num 2)] =
             Inr [(''Y'', Num 5), (''X'', Num 4)]"
    by code_simp
  from q c w show ?thesis by (intro conjI)
qed

text \<open>
  The claim as stated fails in two ways. With weight \<open>1\<close> for a pattern of zero trips it
  fails on the pattern \<open>A\<close> with an empty list of trips, which votes for \<open>X\<close> with weight
  \<open>0\<close>, so that \<open>Y\<close> with one trip wins, where a weight of \<open>1\<close> would make a tie that \<open>X\<close>,
  seen first, would win. As a claim about every pattern it fails on a last stop named
  \<open>constructor\<close>: the vote of five trips leaves a string, not the number \<open>5\<close>.
\<close>

theorem C1_counterexample:
  "trips (zeroTripPatterns ! 0) = Some []
   \<and> weight (zeroTripPatterns ! 0) = 0
   \<and> countVote (zeroTripPatterns ! 0) [] = Inr [(''X'', Num 0)]
   \<and> getDestinationName zeroTripPatterns 0 = Inr ''Y''
   \<and> weight (inheritedNamePatterns ! 1) = 5
   \<and> countVote (inheritedNamePatterns ! 1) [] = Inr [(''constructor'', Str)]"
  by code_simp

text \<open>
  \<^bold>\<open>C5\<close>, as amended. Where every last path entry has its stop, there is a vote and no
  voted name is one that the object inherits, the label is a name of greatest tally, and the first such name in the order of \<open>Object.entries\<close>:
  names that are array indices in ascending numeric order, then the other names in the
  order in which they were first seen; where no name is an array index this is the
  first-seen order. A pattern with an empty path, or none, casts no vote, raises nothing
  and does not change the label. If no pattern has the direction, or none of them casts a
  vote, the label is \<open>Ida\<close> for direction \<open>0\<close> and \<open>Volta\<close> otherwise. Two patterns of the direction, one of \<open>2\<close> trips
  ending at \<open>X\<close> and one of \<open>5\<close> trips ending at \<open>Y\<close>, give \<open>Y\<close>.
\<close>

theorem C5_direction_label:
  "(stopsPresent ps d \<and> votes ps d \<noteq> []
      \<and> (\<forall>n\<in>set (map fst (votes ps d)). n \<notin> set inheritedKeys) \<longrightarrow>
      (\<exists>label pre post.
         getDestinationName ps d = Inr label
         \<and> keyOrder (firstSeen (map fst (votes ps d))) = pre @ label # post
         \<and> (\<forall>n\<in>set pre. tally (votes ps d) n < tally (votes ps d) label)
         \<and> (\<forall>n\<in>set post. tally (votes ps d) n \<le> tally (votes ps d) label)))
   \<and> ((\<forall>n\<in>set (map fst (votes ps d)). \<not> isArrayIndex n) \<longrightarrow>
        keyOrder (firstSeen (map fst (votes ps d))) = firstSeen (map fst (votes ps d)))
   \<and> (path p = None \<or> path p = Some [] \<longrightarrow>
        patternVote p = []
        \<and> getDestinationName (qs @ p # rs) d = getDestinationName (qs @ rs) d)
   \<and> (filter (\<lambda>p. direction p = d) ps = [] \<longrightarrow>
        getDestinationName ps d = Inr (if d = 0 then ''Ida'' else ''Volta''))
   \<and> (stopsPresent ps d \<and> votes ps d = [] \<longrightarrow>
        getDestinationName ps d = Inr (if d = 0 then ''Ida'' else ''Volta''))
   \<and> (direction a = d \<and> path a = Some ea \<and> ea \<noteq> [] \<and> stop (last ea) = Some sa
        \<and> stop_name sa = ''X'' \<and> trips a = Some ta \<and> length ta = 2
        \<and> direction b = d \<and> path b = Some eb \<and> eb \<noteq> [] \<and> stop (last eb) = Some sb
        \<and> stop_name sb = ''Y'' \<and> trips b = Some tb \<and> length tb = 5 \<longrightarrow>
        getDestinationName [a, b] d = Inr ''Y'' \<and> getDestinationName [b, a] d = Inr ''Y'')"
proof (intro conjI impI)
  assume "stopsPresent ps d \<and> votes ps d \<noteq> []
      \<and> (\<forall>n\<in>set (map fst (votes ps d)). n \<notin> set inheritedKeys)"
  then show "\<exists>label pre post.
         getDestinationName ps d = Inr label
         \<and> keyOrder (firstSeen (map fst (votes ps d))) = pre @ label # post
         \<and> (\<forall>n\<in>set pre. tally (votes ps d) n < tally (votes ps d) label)
         \<and> (\<forall>n\<in>set post. tally (votes ps d) n \<le> tally (votes ps d) label)"
    using getDestinationName_first_max [of ps d] by blast
next
  assume "\<forall>n\<in>set (map fst (votes ps d)). \<not> isArrayIndex n"
  then show "keyOrder (firstSeen (map fst (votes ps d))) = firstSeen (map fst (votes ps d))"
    by (intro keyOrder_no_index) simp
next
  assume "path p = None \<or> path p = Some []"
  then show "patternVote p = []" by (auto simp: patternVote_def)
next
  assume "path p = None \<or> path p = Some []"
  then show "getDestinationName (qs @ p # rs) d = getDestinationName (qs @ rs) d"
    by (rule getDestinationName_skip)
next
  assume "filter (\<lambda>p. direction p = d) ps = []"
  then show "getDestinationName ps d = Inr (if d = 0 then ''Ida'' else ''Volta'')"
    by (rule getDestinationName_no_pattern)
next
  assume "stopsPresent ps d \<and> votes ps d = []"
  then show "getDestinationName ps d = Inr (if d = 0 then ''Ida'' else ''Volta'')"
    using getDestinationName_no_votes [of ps d] by blast
next
  assume h: "direction a = d \<and> path a = Some ea \<and> ea \<noteq> [] \<and> stop (last ea) = Some sa
        \<and> stop_name sa = ''X'' \<and> trips a = Some ta \<and> length ta = 2
        \<and> direction b = d \<and> path b = Some eb \<and> eb \<noteq> [] \<and> stop (last eb) = Some sb
        \<and> stop_name sb = ''Y'' \<and> trips b = Some tb \<and> length tb = 5"
  then show "getDestinationName [a, b] d = Inr ''Y''"
    by (intro getDestinationName_two(1) [of a d ea sa ta b eb sb tb]) simp_all
  from h show "getDestinationName [b, a] d = Inr ''Y''"
    by (intro getDestinationName_two(2) [of a d ea sa ta b eb sb tb]) simp_all
qed


theorem C5_direction_label_witness:
  "getDestinationName votePatterns 0 = Inr ''Y''
   \<and> (\<exists>label pre post.
         getDestinationName votePatterns 0 = Inr label
         \<and> keyOrder (firstSeen (map fst (votes votePatterns 0))) = pre @ label # post
         \<and> (\<forall>n\<in>set pre. tally (votes votePatterns 0) n < tally (votes votePatterns 0) label)
         \<and> (\<forall>n\<in>set post. tally (votes votePatterns 0) n \<le> tally (votes votePatterns 0) label))
   \<and> keyOrder (firstSeen (map fst (votes votePatterns 0))) = [''X'', ''Y'']
   \<and> getDestinationName ([votePatterns ! 0] @ votePatterns ! 1 # [votePatterns ! 2]) 0 =
       getDestinationName ([votePatterns ! 0] @ [votePatterns ! 2]) 0
   \<and> getDestinationName votePatterns 1 = Inr ''Volta''
   \<and> getDestinationName [votePatterns ! 1] 0 = Inr ''Ida''
   \<and> getDestinationName [votePatterns ! 0, votePatterns ! 2] 0 = Inr ''Y''
   \<and> getDestinationName [votePatterns ! 2, votePatterns ! 0] 0 = Inr ''Y''"
proof -
  have y: "getDestinationName votePatterns 0 = Inr ''Y''" by code_simp
  have h1: "stopsPresent votePatterns 0 \<and> votes votePatterns 0 \<noteq> []
      \<and> (\<forall>n\<in>set (map fst (votes votePatterns 0)). n \<notin> set inheritedKeys)" by code_simp
  have h2: "\<forall>n\<in>set (map fst (votes votePatterns 0)). \<not> isArrayIndex n" by code_simp
  have fs: "firstSeen (map fst (votes votePatterns 0)) = [''X'', ''Y'']" by code_simp
  have h3: "path (votePatterns ! 1) = None \<or> path (votePatterns ! 1) = Some []"
    by (simp add: votePatterns_def samplePattern_def)
  have h4: "filter (\<lambda>p. direction p = 1) votePatterns = []"
    by (simp add: votePatterns_def samplePattern_def)
  have h5: "direction (votePatterns ! 0) = 0
      \<and> path (votePatterns ! 0) = Some (the (path (votePatterns ! 0)))
      \<and> the (path (votePatterns ! 0)) \<noteq> []
      \<and> stop (last (the (path (votePatterns ! 0)))) =
          Some (the (stop (last (the (path (votePatterns ! 0))))))
      \<and> stop_name (the (stop (last (the (path (votePatterns ! 0)))))) = ''X''
      \<and> trips (votePatterns ! 0) = Some (the (trips (votePatterns ! 0)))
      \<and> length (the (trips (votePatterns ! 0))) = 2
      \<and> direction (votePatterns ! 2) = 0
      \<and> path (votePatterns ! 2) = Some (the (path (votePatterns ! 2)))
      \<and> the (path (votePatterns ! 2)) \<noteq> []
      \<and> stop (last (the (path (votePatterns ! 2)))) =
          Some (the (stop (last (the (path (votePatterns ! 2))))))
      \<and> stop_name (the (stop (last (the (path (votePatterns ! 2)))))) = ''Y''
      \<and> trips (votePatterns ! 2) = Some (the (trips (votePatterns ! 2)))
      \<and> length (the (trips (votePatterns ! 2))) = 5"
    by (simp add: votePatterns_def samplePattern_def)
  note at0 = C5_direction_label
    [where ps = votePatterns and d = 0 and p = "votePatterns ! 1"
       and qs = "[votePatterns ! 0]" and rs = "[votePatterns ! 2]"
       and a = "votePatterns ! 0" and ea = "the (path (votePatterns ! 0))"
       and sa = "the (stop (last (the (path (votePatterns ! 0)))))"
       and ta = "the (trips (votePatterns ! 0))"
       and b = "votePatterns ! 2" and eb = "the (path (votePatterns ! 2))"
       and sb = "the (stop (last (the (path (votePatterns ! 2)))))"
       and tb = "the (trips (votePatterns ! 2))"]
  note at1 = C5_direction_label [where ps = votePatterns and d = 1]
  have c1: "\<exists>label pre post.
         getDestinationName votePatterns 0 = Inr label
         \<and> keyOrder (firstSeen (map fst (votes votePatterns 0))) = pre @ label # post
         \<and> (\<forall>n\<in>set pre. tally (votes votePatterns 0) n < tally (votes votePatterns 0) label)
         \<and> (\<forall>n\<in>set post. tally (votes votePatterns 0) n \<le> tally (votes votePatterns 0) label)"
    using at0 h1 by blast
  have c2: "keyOrder (firstSeen (map fst (votes votePatterns 0))) = [''X'', ''Y'']"
    using at0 h2 fs by simp
  have c3: "getDestinationName ([votePatterns ! 0] @ votePatterns ! 1 # [votePatterns ! 2]) 0 =
       getDestinationName ([votePatterns ! 0] @ [votePatterns ! 2]) 0"
    using at0 h3 by blast
  from at1 have "filter (\<lambda>p. direction p = 1) votePatterns = [] \<longrightarrow>
      getDestinationName votePatterns 1 = Inr (if (1::int) = 0 then ''Ida'' else ''Volta'')"
    by blast
  with h4 have c4: "getDestinationName votePatterns 1 = Inr ''Volta''" by simp
  have h6: "stopsPresent [votePatterns ! 1] 0 \<and> votes [votePatterns ! 1] 0 = []" by code_simp
  from C5_direction_label [where ps = "[votePatterns ! 1]" and d = 0]
  have "stopsPresent [votePatterns ! 1] 0 \<and> votes [votePatterns ! 1] 0 = [] \<longrightarrow>
      getDestinationName [votePatterns ! 1] 0 = Inr (if (0::int) = 0 then ''Ida'' else ''Volta'')"
    by blast
  with h6 have c6: "getDestinationName [votePatterns ! 1] 0 = Inr ''Ida''" by simp
  have c5: "getDestinationName [votePatterns ! 0, votePatterns ! 2] 0 = Inr ''Y''
            \<and> getDestinationName [votePatterns ! 2, votePatterns ! 0] 0 = Inr ''Y''"
    using at0 h5 by blast
  from y c1 c2 c3 c4 c6 c5 show ?thesis by (intro conjI) simp_all
qed

text \<open>
  The claim as stated fails in two ways. With ties broken by first-seen order for every
  name it fails where names are array indices: \<open>10\<close> is seen before \<open>9\<close>, both have the tally
  \<open>1\<close>, and \<open>Object.entries\<close> lists \<open>9\<close> first, so the label is \<open>9\<close>. As a claim about every
  set of patterns it fails on names that the object inherits: \<open>constructor\<close> has the
  greatest tally and the label is \<open>X\<close>, and where \<open>__proto__\<close> has the only vote the label is
  \<open>Volta\<close>.
\<close>

theorem C5_counterexample:
  "firstSeen (map fst (votes numberedStopPatterns 0)) = [''10'', ''9'']
   \<and> tally (votes numberedStopPatterns 0) ''10'' = 1
   \<and> tally (votes numberedStopPatterns 0) ''9'' = 1
   \<and> getDestinationName numberedStopPatterns 0 = Inr ''9''
   \<and> tally (votes inheritedNamePatterns 0) ''X'' = 2
   \<and> tally (votes inheritedNamePatterns 0) ''constructor'' = 5
   \<and> getDestinationName inheritedNamePatterns 0 = Inr ''X''
   \<and> votes inheritedNamePatterns 1 = [(''__proto__'', 1)]
   \<and> getDestinationName inheritedNamePatterns 1 = Inr ''Volta''"
  by code_simp

end
